theory Spec2Isabelle
  imports Main "HOL-Library.AList"
begin

section \<open>Strings\<close>

text \<open>
  A JavaScript string is modelled as a \<^typ>\<open>string\<close> whose characters are code units
  below 256 (Latin-1). The type tags, ids and labels the editor handles are of this kind.
\<close>

text \<open>
  Number to string conversion of a template literal, \<^verbatim>\<open>`${n}`\<close>, for a
  non-negative integer: its decimal digits.
\<close>

fun string_of_nat :: "nat \<Rightarrow> string" where
  "string_of_nat n =
     (if n < 10 then [char_of (48 + n)]
      else string_of_nat (n div 10) @ [char_of (48 + n mod 10)])"

declare string_of_nat.simps [simp del]

text \<open>Reading a decimal numeral back; only used to show that printing is injective.\<close>

definition nat_of_string :: "string \<Rightarrow> nat" where
  "nat_of_string cs = foldl (\<lambda>a c. 10 * a + (of_char c - 48)) 0 cs"

text \<open>
  \<^verbatim>\<open>String.prototype.trim\<close>: the white space characters below 256 are tab, line feed,
  vertical tab, form feed, carriage return, space and the no-break space.
\<close>

definition isWhiteSpace :: "char \<Rightarrow> bool" where
  "isWhiteSpace c \<longleftrightarrow>
     (of_char c :: nat) \<in> {9, 10, 11, 12, 13, 32, 160}"

definition trim :: "string \<Rightarrow> string" where
  "trim s = rev (dropWhile isWhiteSpace (rev (dropWhile isWhiteSpace s)))"

text \<open>
  \<^verbatim>\<open>String.prototype.toUpperCase\<close> on the ASCII letters; every other character is
  left as it is.
\<close>

definition toUpperCase_char :: "char \<Rightarrow> char" where
  "toUpperCase_char c =
     (if 97 \<le> (of_char c :: nat) \<and> (of_char c :: nat) \<le> 122
      then char_of ((of_char c :: nat) - 32) else c)"

definition toUpperCase :: "string \<Rightarrow> string" where
  "toUpperCase s = map toUpperCase_char s"

text \<open>\<^verbatim>\<open>s.charAt(0)\<close> is the empty string on the empty string; \<^verbatim>\<open>s.slice(1)\<close>.\<close>

definition charAt0 :: "string \<Rightarrow> string" where
  "charAt0 s = take 1 s"

definition slice1 :: "string \<Rightarrow> string" where
  "slice1 s = drop 1 s"

section \<open>JSON values and plain objects\<close>

text \<open>
  The values \<^verbatim>\<open>JSON.parse\<close> can return. A plain object is the list of its own
  enumerable properties in insertion order; numbers are opaque to the editor.
\<close>

datatype jsvalue =
    JNull
  | JBool bool
  | JNum int
  | JStr string
  | JArr "jsvalue list"
  | JObj "(string \<times> jsvalue) list"

type_synonym object = "(string \<times> jsvalue) list"

text \<open>
  The own enumerable properties that an object spread \<^verbatim>\<open>{...v}\<close> copies: the entries
  of an object, the indexed elements of an array, the indexed characters of a string, and
  nothing for \<^verbatim>\<open>null\<close>, booleans and numbers.
\<close>

fun ownProps :: "jsvalue \<Rightarrow> object" where
  "ownProps (JObj kvs) = kvs"
| "ownProps (JArr vs) = zip (map string_of_nat [0..<length vs]) vs"
| "ownProps (JStr cs) = zip (map string_of_nat [0..<length cs]) (map (\<lambda>c. JStr [c]) cs)"
| "ownProps JNull = []"
| "ownProps (JBool b) = []"
| "ownProps (JNum i) = []"

text \<open>\<^verbatim>\<open>{ ...a, ...v }\<close>: a later property overwrites in place or is appended.\<close>

definition spread :: "object \<Rightarrow> jsvalue \<Rightarrow> object" where
  "spread a v = fold (\<lambda>(k, w). AList.update k w) (ownProps v) a"

text \<open>The only exception the editor code meets is the one \<^verbatim>\<open>JSON.parse\<close> throws.\<close>

datatype exn = SyntaxError

definition try_catch :: "exn + 'a \<Rightarrow> (exn \<Rightarrow> exn + 'a) \<Rightarrow> exn + 'a" where
  "try_catch body handler = (case body of Inl e \<Rightarrow> handler e | Inr v \<Rightarrow> Inr v)"

definition bind_exn :: "exn + 'a \<Rightarrow> ('a \<Rightarrow> exn + 'b) \<Rightarrow> exn + 'b" where
  "bind_exn m f = (case m of Inl e \<Rightarrow> Inl e | Inr v \<Rightarrow> f v)"

section \<open>Nodes and their handles (the node components)\<close>

text \<open>
  The node components come in two copies in the sources. The one embedded here is the
  later one, with inline label editing and a source and a target handle per side, each
  with an id; the earlier one has single handles without ids and no label editor.
\<close>

datatype HandleType = Source | Target

datatype Position = Left | Top | Right | Bottom

text \<open>A \<^verbatim>\<open><Handle type=.. position=.. id=..>\<close> element; \<open>hid\<close> is \<open>None\<close> when no id is given.\<close>

record Handle =
  htype :: HandleType
  hposition :: Position
  hid :: "string option"

text \<open>Coordinates are numbers the editor only passes on; they are taken as integers.\<close>

record XYPosition =
  pos_x :: int
  pos_y :: int

text \<open>
  The fields \<^verbatim>\<open>id\<close>, \<^verbatim>\<open>type\<close>, \<^verbatim>\<open>data\<close> and \<^verbatim>\<open>selected\<close> of nodes and edges are
  prefixed with \<open>n\<close> and \<open>e\<close>.
  A React Flow node as the editor builds it: \<^verbatim>\<open>{ id, type, position, data }\<close>, and the
  \<^verbatim>\<open>selected\<close> flag the canvas maintains (absent counts as false).
\<close>

record Node =
  nid :: string
  ntype :: string
  position :: XYPosition
  ndata :: object
  nselected :: bool

text \<open>
  The three node components, reduced to the connection handles they render, in the order
  of the JSX. Their props are the node's \<^verbatim>\<open>id\<close>, \<^verbatim>\<open>data\<close> and \<^verbatim>\<open>selected\<close>.
\<close>

definition ActorNode :: "string \<Rightarrow> object \<Rightarrow> bool \<Rightarrow> Handle list" where
  "ActorNode i dat sel =
     [\<lparr>htype = Source, hposition = Right, hid = Some ''right-source''\<rparr>,
      \<lparr>htype = Target, hposition = Right, hid = Some ''right-target''\<rparr>,
      \<lparr>htype = Source, hposition = Left, hid = Some ''left-source''\<rparr>,
      \<lparr>htype = Target, hposition = Left, hid = Some ''left-target''\<rparr>]"

definition UseCaseNode :: "string \<Rightarrow> object \<Rightarrow> bool \<Rightarrow> Handle list" where
  "UseCaseNode i dat sel =
     [\<lparr>htype = Source, hposition = Left, hid = Some ''left-source''\<rparr>,
      \<lparr>htype = Target, hposition = Left, hid = Some ''left-target''\<rparr>,
      \<lparr>htype = Source, hposition = Right, hid = Some ''right-source''\<rparr>,
      \<lparr>htype = Target, hposition = Right, hid = Some ''right-target''\<rparr>,
      \<lparr>htype = Source, hposition = Top, hid = Some ''top-source''\<rparr>,
      \<lparr>htype = Target, hposition = Top, hid = Some ''top-target''\<rparr>,
      \<lparr>htype = Source, hposition = Bottom, hid = Some ''bottom-source''\<rparr>,
      \<lparr>htype = Target, hposition = Bottom, hid = Some ''bottom-target''\<rparr>]"

definition SystemNode :: "string \<Rightarrow> object \<Rightarrow> bool \<Rightarrow> Handle list" where
  "SystemNode i dat sel =
     [\<lparr>htype = Source, hposition = Left, hid = Some ''left-source''\<rparr>,
      \<lparr>htype = Target, hposition = Left, hid = Some ''left-target''\<rparr>,
      \<lparr>htype = Source, hposition = Right, hid = Some ''right-source''\<rparr>,
      \<lparr>htype = Target, hposition = Right, hid = Some ''right-target''\<rparr>]"

definition useCaseNodeTypes ::
  "string \<Rightarrow> (string \<Rightarrow> object \<Rightarrow> bool \<Rightarrow> Handle list) option" where
  "useCaseNodeTypes t =
     (if t = ''actor'' then Some ActorNode
      else if t = ''usecase'' then Some UseCaseNode
      else if t = ''system'' then Some SystemNode
      else None)"

text \<open>
  A type outside the registry is rendered by the canvas library (@xyflow/react), not by
  the repository: its built-in \<open>input\<close> node has a source handle at the bottom, its
  \<open>output\<close> node a target handle at the top, its \<open>group\<close> node no handle, and every
  other type falls back to its default node, with a target handle at the top and a source
  handle at the bottom. None of these handles has an id.
\<close>

definition builtinNode :: "string \<Rightarrow> Handle list" where
  "builtinNode t =
     (if t = ''input'' then [\<lparr>htype = Source, hposition = Bottom, hid = None\<rparr>]
      else if t = ''output'' then [\<lparr>htype = Target, hposition = Top, hid = None\<rparr>]
      else if t = ''group'' then []
      else [\<lparr>htype = Target, hposition = Top, hid = None\<rparr>,
            \<lparr>htype = Source, hposition = Bottom, hid = None\<rparr>])"

text \<open>The handles of a node: those the component for its type renders.\<close>

definition handlesOf :: "Node \<Rightarrow> Handle list" where
  "handlesOf n =
     (case useCaseNodeTypes (ntype n) of
        None \<Rightarrow> builtinNode (ntype n)
      | Some component \<Rightarrow> component (nid n) (ndata n) (nselected n))"

definition handleSides :: "HandleType \<Rightarrow> Handle list \<Rightarrow> Position list" where
  "handleSides t hs = map hposition (filter (\<lambda>h. htype h = t) hs)"

section \<open>Edges (UseCaseEdges.tsx)\<close>

datatype DependencyType = Include | Extend

text \<open>\<^verbatim>\<open>DependencyEdgeData\<close>: both fields optional; \<^verbatim>\<open>AssociationEdgeData\<close> only uses the label.\<close>

record EdgeData =
  label :: "string option"
  dtype :: "DependencyType option"

datatype MarkerType = Arrow | ArrowClosed

record EdgeMarker =
  mtype :: MarkerType
  mwidth :: nat
  mheight :: nat

text \<open>The \<^verbatim>\<open>Connection\<close> the canvas passes to \<^verbatim>\<open>onConnect\<close>; a handle may be \<^verbatim>\<open>null\<close>.\<close>

record Connection =
  source :: string
  target :: string
  sourceHandle :: "string option"
  targetHandle :: "string option"

record Edge = Connection +
  eid :: string
  etype :: string
  markerEnd :: "EdgeMarker option"
  edata :: "EdgeData option"
  eselected :: bool

definition dependencyTypeName :: "DependencyType \<Rightarrow> string" where
  "dependencyTypeName t = (case t of Include \<Rightarrow> ''include'' | Extend \<Rightarrow> ''extend'')"

text \<open>The guillemets are the code units 171 and 187.\<close>

definition guillemets :: "string \<Rightarrow> string" where
  "guillemets s = [CHR 0xAB] @ s @ [CHR 0xBB]"

text \<open>
  The label expression of \<^verbatim>\<open>DependencyEdge\<close>,
  \<^verbatim>\<open>data?.label || (data?.type ? (guillemets around data.type) : '')\<close>:
  an absent and an empty label are both falsy.
\<close>

definition dependencyLabel :: "EdgeData option \<Rightarrow> string" where
  "dependencyLabel d =
     (let synthesized =
            (case d of
               None \<Rightarrow> ''''
             | Some dat \<Rightarrow>
                 (case dtype dat of
                    None \<Rightarrow> ''''
                  | Some t \<Rightarrow> guillemets (dependencyTypeName t)))
      in case d of
           None \<Rightarrow> synthesized
         | Some dat \<Rightarrow>
             (case label dat of
                None \<Rightarrow> synthesized
              | Some l \<Rightarrow> if l = '''' then synthesized else l))"

text \<open>
  The two edge components, reduced to the \<^verbatim>\<open>value\<close> of the \<^verbatim>\<open>EditableEdgeLabel\<close>
  they render; \<open>None\<close> when they render no label.
\<close>

definition AssociationEdge :: "Edge \<Rightarrow> string option" where
  "AssociationEdge e =
     (case edata e of
        None \<Rightarrow> None
      | Some dat \<Rightarrow>
          (case label dat of
             None \<Rightarrow> None
           | Some l \<Rightarrow> if l = '''' then None else Some l))"

definition DependencyEdge :: "Edge \<Rightarrow> string option" where
  "DependencyEdge e =
     (let l = dependencyLabel (edata e) in if l = '''' then None else Some l)"

definition useCaseEdgeTypes :: "string \<Rightarrow> (Edge \<Rightarrow> string option) option" where
  "useCaseEdgeTypes t =
     (if t = ''association'' then Some AssociationEdge
      else if t = ''dependency'' then Some DependencyEdge
      else None)"

text \<open>
  \<^verbatim>\<open>addEdge\<close> is imported from the canvas library (@xyflow/react), not defined in the
  repository. It is modelled on the library's behaviour: an edge without source or target
  is dropped, an edge whose connection (source, target and both handles, where two missing
  or empty handles count as equal) is already present is dropped, and any other edge is
  appended. It looks neither at ids nor at the nodes.
\<close>

definition noHandle :: "string option \<Rightarrow> bool" where
  "noHandle h \<longleftrightarrow> h = None \<or> h = Some ''''"

definition sameConnection :: "Edge \<Rightarrow> Edge \<Rightarrow> bool" where
  "sameConnection el e \<longleftrightarrow>
     source el = source e \<and> target el = target e \<and>
     (sourceHandle el = sourceHandle e \<or> noHandle (sourceHandle el) \<and> noHandle (sourceHandle e)) \<and>
     (targetHandle el = targetHandle e \<or> noHandle (targetHandle el) \<and> noHandle (targetHandle e))"

definition connectionExists :: "Edge \<Rightarrow> Edge list \<Rightarrow> bool" where
  "connectionExists e es = list_ex (\<lambda>el. sameConnection el e) es"

definition addEdge :: "Edge \<Rightarrow> Edge list \<Rightarrow> Edge list" where
  "addEdge e es =
     (if source e = '''' \<or> target e = '''' then es
      else if connectionExists e es then es
      else es @ [e])"

section \<open>The editor (DiagramEditor.tsx)\<close>

text \<open>
  The state the handlers work on: the two React Flow collections, the edge type chosen in
  the sidebar, and the module-level counter behind \<^verbatim>\<open>generateNodeId\<close>.
\<close>

record EditorState =
  nodes :: "Node list"
  edges :: "Edge list"
  selectedEdgeType :: string
  nodeIdCounter :: nat

definition initialState :: EditorState where
  "initialState =
     \<lparr>nodes = [], edges = [], selectedEdgeType = ''association'', nodeIdCounter = 1\<rparr>"

text \<open>\<^verbatim>\<open>const generateNodeId = () => `node_${nodeIdCounter++}`\<close>\<close>

definition nodeIdOf :: "nat \<Rightarrow> string" where
  "nodeIdOf k = ''node_'' @ string_of_nat k"

definition generateNodeId :: "EditorState \<Rightarrow> string \<times> EditorState" where
  "generateNodeId s = (nodeIdOf (nodeIdCounter s), s\<lparr>nodeIdCounter := nodeIdCounter s + 1\<rparr>)"

text \<open>\<^verbatim>\<open>`edge_${Date.now()}`\<close>, the clock reading being an input of the handler.\<close>

definition edgeIdOf :: "nat \<Rightarrow> string" where
  "edgeIdOf now = ''edge_'' @ string_of_nat now"

definition newEdge :: "nat \<Rightarrow> Connection \<Rightarrow> EditorState \<Rightarrow> Edge" where
  "newEdge now params s =
     \<lparr>source = source params, target = target params,
      sourceHandle = sourceHandle params, targetHandle = targetHandle params,
      eid = edgeIdOf now,
      etype = selectedEdgeType s,
      markerEnd = Some \<lparr>mtype = ArrowClosed, mwidth = 20, mheight = 20\<rparr>,
      edata = (if selectedEdgeType s = ''dependency''
               then Some \<lparr>label = None, dtype = Some Include\<rparr>
               else None),
      eselected = False\<rparr>"

definition onConnect :: "nat \<Rightarrow> Connection \<Rightarrow> EditorState \<Rightarrow> EditorState" where
  "onConnect now params s = s\<lparr>edges := addEdge (newEdge now params s) (edges s)\<rparr>"

text \<open>
  A drop event: the pointer position and the drag payload; \<^verbatim>\<open>getData\<close> of a format
  that was not set is the empty string.
\<close>

record DragEvent =
  clientX :: int
  clientY :: int
  dataTransfer :: "(string \<times> string) list"

definition getData :: "(string \<times> string) list \<Rightarrow> string \<Rightarrow> string" where
  "getData dt format = (case map_of dt format of None \<Rightarrow> '''' | Some v \<Rightarrow> v)"

text \<open>
  \<^verbatim>\<open>onDrop\<close>. The platform's \<^verbatim>\<open>JSON.parse\<close> and the canvas's \<^verbatim>\<open>screenToFlowPosition\<close>
  are parameters. The \<^verbatim>\<open>try\<close> block holds the parse and the merge; the \<^verbatim>\<open>catch\<close>
  keeps the default data.
\<close>

definition defaultData :: "string \<Rightarrow> object" where
  "defaultData type = [(''label'', JStr (toUpperCase (charAt0 type) @ slice1 type))]"

definition onDrop ::
  "(string \<Rightarrow> exn + jsvalue) \<Rightarrow> (int \<times> int \<Rightarrow> XYPosition) \<Rightarrow> DragEvent \<Rightarrow> EditorState
     \<Rightarrow> exn + EditorState" where
  "onDrop JSON_parse screenToFlowPosition event s =
     (let type = getData (dataTransfer event) ''application/reactflow-type'';
          dataString = getData (dataTransfer event) ''application/reactflow-data''
      in if type = '''' then Inr s
         else
           let pos = screenToFlowPosition (clientX event, clientY event);
               dat = defaultData type
           in bind_exn
                (try_catch
                   (bind_exn (JSON_parse dataString) (\<lambda>parsed. Inr (spread dat parsed)))
                   (\<lambda>e. Inr dat))
                (\<lambda>dat'.
                   let (newId, s') = generateNodeId s;
                       newNode = \<lparr>nid = newId, ntype = type, position = pos,
                                  ndata = dat', nselected = False\<rparr>
                   in Inr (s'\<lparr>nodes := nodes s' @ [newNode]\<rparr>)))"

text \<open>\<^verbatim>\<open>handleDeleteSelected\<close>: two filters, one per collection.\<close>

definition handleDeleteSelected :: "EditorState \<Rightarrow> EditorState" where
  "handleDeleteSelected s =
     s\<lparr>nodes := filter (\<lambda>n. \<not> nselected n) (nodes s),
       edges := filter (\<lambda>e. \<not> eselected e) (edges s)\<rparr>"

text \<open>
  \<^verbatim>\<open>EditableEdgeLabel.handleSave\<close>, for the label component of edge \<open>edgeId\<close> showing
  \<open>val\<close>, when the input holds \<open>editValue\<close>:
  \<^verbatim>\<open>{ ...edge, data: { ...edge.data, label: trimmedValue } }\<close>.
\<close>

definition setLabel :: "string \<Rightarrow> Edge \<Rightarrow> Edge" where
  "setLabel l e =
     e\<lparr>edata := Some (case edata e of
                        None \<Rightarrow> \<lparr>label = Some l, dtype = None\<rparr>
                      | Some dat \<Rightarrow> dat\<lparr>label := Some l\<rparr>)\<rparr>"

definition handleSave :: "string \<Rightarrow> string \<Rightarrow> string \<Rightarrow> EditorState \<Rightarrow> EditorState" where
  "handleSave edgeId val editValue s =
     (let trimmedValue = trim editValue
      in if trimmedValue \<noteq> val
         then s\<lparr>edges := map (\<lambda>e. if eid e = edgeId then setLabel trimmedValue e else e) (edges s)\<rparr>
         else s)"

text \<open>The node \<^verbatim>\<open>onDrop\<close> appends when the drag payload carries a type.\<close>

definition newNode ::
  "(string \<Rightarrow> exn + jsvalue) \<Rightarrow> (int \<times> int \<Rightarrow> XYPosition) \<Rightarrow> DragEvent \<Rightarrow> EditorState
     \<Rightarrow> Node" where
  "newNode JSON_parse screenToFlowPosition event s =
     (let type = getData (dataTransfer event) ''application/reactflow-type''
      in \<lparr>nid = nodeIdOf (nodeIdCounter s), ntype = type,
          position = screenToFlowPosition (clientX event, clientY event),
          ndata = (case JSON_parse (getData (dataTransfer event) ''application/reactflow-data'') of
                     Inl e \<Rightarrow> defaultData type
                   | Inr parsed \<Rightarrow> spread (defaultData type) parsed),
          nselected = False\<rparr>)"

text \<open>
  Selection is kept by the canvas, which sets the \<^verbatim>\<open>selected\<close> flags through
  \<^verbatim>\<open>onNodesChange\<close> and \<^verbatim>\<open>onEdgesChange\<close>: after a selection change the flagged
  elements are those named.
\<close>

definition selectionChange :: "string list \<Rightarrow> string list \<Rightarrow> EditorState \<Rightarrow> EditorState" where
  "selectionChange nodeIds edgeIds s =
     s\<lparr>nodes := map (\<lambda>n. n\<lparr>nselected := nid n \<in> set nodeIds\<rparr>) (nodes s),
       edges := map (\<lambda>e. e\<lparr>eselected := eid e \<in> set edgeIds\<rparr>) (edges s)\<rparr>"

text \<open>
  \<^verbatim>\<open>EditableLabel.handleSave\<close> of the node components, for the label of node \<open>nodeId\<close>
  showing \<open>val\<close> (the node's \<^verbatim>\<open>data.label\<close>), when the input holds \<open>editValue\<close>:
  under the guard \<^verbatim>\<open>trimmedValue && trimmedValue !== value\<close> it maps
  \<^verbatim>\<open>{ ...node, data: { ...node.data, label: trimmedValue } }\<close> over the nodes with that id.
\<close>

definition EditableLabel_handleSave ::
  "string \<Rightarrow> string \<Rightarrow> string \<Rightarrow> EditorState \<Rightarrow> EditorState" where
  "EditableLabel_handleSave nodeId val editValue s =
     (let trimmedValue = trim editValue
      in if trimmedValue \<noteq> '''' \<and> trimmedValue \<noteq> val
         then s\<lparr>nodes := map (\<lambda>n. if nid n = nodeId
                                    then n\<lparr>ndata := AList.update ''label'' (JStr trimmedValue) (ndata n)\<rparr>
                                    else n) (nodes s)\<rparr>
         else s)"

section \<open>Operation sequences\<close>

text \<open>
  What can happen to the editor between two renderings: a drop from the sidebar, a
  connection reported by the canvas at a clock reading, a choice of edge type in the
  sidebar, a selection change made by the canvas (the ids now selected), a click on the
  delete button, and a commit in the label editor of an edge or of a node (the id, the
  text the editor was showing, the text typed). A handler that throws leaves the state as
  it was.
\<close>

datatype action =
    Drop DragEvent
  | Connect nat Connection
  | SelectEdgeType string
  | SelectionChange "string list" "string list"
  | DeleteSelected
  | SaveEdgeLabel string string string
  | SaveNodeLabel string string string

definition step ::
  "(string \<Rightarrow> exn + jsvalue) \<Rightarrow> (int \<times> int \<Rightarrow> XYPosition) \<Rightarrow> action \<Rightarrow> EditorState
     \<Rightarrow> EditorState" where
  "step JSON_parse screenToFlowPosition a s =
     (case a of
        Drop event \<Rightarrow>
          (case onDrop JSON_parse screenToFlowPosition event s of
             Inl e \<Rightarrow> s
           | Inr s' \<Rightarrow> s')
      | Connect now params \<Rightarrow> onConnect now params s
      | SelectEdgeType t \<Rightarrow> s\<lparr>selectedEdgeType := t\<rparr>
      | SelectionChange nodeIds edgeIds \<Rightarrow> selectionChange nodeIds edgeIds s
      | DeleteSelected \<Rightarrow> handleDeleteSelected s
      | SaveEdgeLabel edgeId val editValue \<Rightarrow> handleSave edgeId val editValue s
      | SaveNodeLabel nodeId val editValue \<Rightarrow> EditableLabel_handleSave nodeId val editValue s)"

definition run ::
  "(string \<Rightarrow> exn + jsvalue) \<Rightarrow> (int \<times> int \<Rightarrow> XYPosition) \<Rightarrow> action list \<Rightarrow> EditorState
     \<Rightarrow> EditorState" where
  "run JSON_parse screenToFlowPosition as s = fold (step JSON_parse screenToFlowPosition) as s"

section \<open>Validity of a diagram\<close>

text \<open>
  Modelled from the spec: \<^verbatim>\<open>validate\<close> is a check of the specification's graph model
  and has no counterpart in the repository. It holds when node ids are unique, edge ids
  are unique, every edge's source and target name an existing node, and every edge's
  handle ids are ids of handles of the respective node.
\<close>

definition uniqueNodeIds :: "EditorState \<Rightarrow> bool" where
  "uniqueNodeIds s \<longleftrightarrow> distinct (map nid (nodes s))"

definition uniqueEdgeIds :: "EditorState \<Rightarrow> bool" where
  "uniqueEdgeIds s \<longleftrightarrow> distinct (map eid (edges s))"

definition endpointsExist :: "EditorState \<Rightarrow> bool" where
  "endpointsExist s \<longleftrightarrow>
     list_all (\<lambda>e. source e \<in> set (map nid (nodes s)) \<and> target e \<in> set (map nid (nodes s)))
       (edges s)"

definition isHandleOf :: "Node list \<Rightarrow> string \<Rightarrow> string option \<Rightarrow> bool" where
  "isHandleOf ns i h = list_ex (\<lambda>n. nid n = i \<and> h \<in> set (map hid (handlesOf n))) ns"

definition handlesValid :: "EditorState \<Rightarrow> bool" where
  "handlesValid s \<longleftrightarrow>
     list_all (\<lambda>e. isHandleOf (nodes s) (source e) (sourceHandle e) \<and>
                    isHandleOf (nodes s) (target e) (targetHandle e))
       (edges s)"

definition validate :: "EditorState \<Rightarrow> bool" where
  "validate s \<longleftrightarrow> uniqueNodeIds s \<and> uniqueEdgeIds s \<and> endpointsExist s \<and> handlesValid s"

text \<open>
  Every node id present was produced by the counter at an earlier reading; every edge id
  present was produced at a clock reading before \<open>now\<close>.
\<close>

definition nodeIdsBelow :: "EditorState \<Rightarrow> bool" where
  "nodeIdsBelow s = list_all (\<lambda>n. nid n \<in> set (map nodeIdOf [0..<nodeIdCounter s])) (nodes s)"

definition edgeIdsBefore :: "nat \<Rightarrow> Edge list \<Rightarrow> bool" where
  "edgeIdsBefore now es = list_all (\<lambda>e. eid e \<in> set (map edgeIdOf [0..<now])) es"

definition nodesOk :: "EditorState \<Rightarrow> bool" where
  "nodesOk s \<longleftrightarrow> nodeIdsBelow s \<and> distinct (map nid (nodes s))"

definition edgesOk :: "EditorState \<Rightarrow> bool" where
  "edgesOk s \<longleftrightarrow> uniqueEdgeIds s \<and> handlesValid s"

text \<open>The selection contains every edge attached to a selected node.\<close>

definition cascadeSelected :: "EditorState \<Rightarrow> bool" where
  "cascadeSelected s =
     list_all (\<lambda>e. eselected e \<or>
                    \<not> list_ex (\<lambda>n. nselected n \<and> (nid n = source e \<or> nid n = target e)) (nodes s))
       (edges s)"

text \<open>
  The requests the canvas issues in regular use: a connection joins handles of existing
  nodes at a clock reading later than that of every existing edge, and a deletion comes
  with the attached edges selected. Every other action is unconstrained.
\<close>

definition wellFormed :: "action \<Rightarrow> EditorState \<Rightarrow> bool" where
  "wellFormed a s =
     (case a of
        Connect now params \<Rightarrow>
          isHandleOf (nodes s) (source params) (sourceHandle params) \<and>
          isHandleOf (nodes s) (target params) (targetHandle params) \<and>
          edgeIdsBefore now (edges s)
      | DeleteSelected \<Rightarrow> cascadeSelected s
      | _ \<Rightarrow> True)"

fun admissible ::
  "(string \<Rightarrow> exn + jsvalue) \<Rightarrow> (int \<times> int \<Rightarrow> XYPosition) \<Rightarrow> action list \<Rightarrow> EditorState
     \<Rightarrow> bool" where
  "admissible JSON_parse screenToFlowPosition [] s = True"
| "admissible JSON_parse screenToFlowPosition (a # as) s =
     (wellFormed a s \<and>
      admissible JSON_parse screenToFlowPosition as (step JSON_parse screenToFlowPosition a s))"

section \<open>Example inputs\<close>

definition parseTable :: "string \<Rightarrow> exn + jsvalue" where
  "parseTable str =
     (if str = ''{\"label\":\"Customer\"}'' then Inr (JObj [(''label'', JStr ''Customer'')])
      else if str = ''{\"label\":\"Checkout\"}'' then Inr (JObj [(''label'', JStr ''Checkout'')])
      else if str = ''{}'' then Inr (JObj [])
      else Inl SyntaxError)"

definition flowPosition :: "int \<times> int \<Rightarrow> XYPosition" where
  "flowPosition p = \<lparr>pos_x = fst p, pos_y = snd p\<rparr>"

definition dropOf :: "string \<Rightarrow> string \<Rightarrow> int \<Rightarrow> int \<Rightarrow> DragEvent" where
  "dropOf type dataString cx cy =
     \<lparr>clientX = cx, clientY = cy,
      dataTransfer = [(''application/reactflow-type'', type),
                      (''application/reactflow-data'', dataString)]\<rparr>"

definition connectionOf ::
  "string \<Rightarrow> string option \<Rightarrow> string \<Rightarrow> string option \<Rightarrow> Connection" where
  "connectionOf src srcHandle tgt tgtHandle =
     \<lparr>source = src, target = tgt, sourceHandle = srcHandle, targetHandle = tgtHandle\<rparr>"

definition dropActor :: action where
  "dropActor = Drop (dropOf ''actor'' ''{\"label\":\"Customer\"}'' 0 0)"

definition dropUseCase :: action where
  "dropUseCase = Drop (dropOf ''usecase'' ''{\"label\":\"Checkout\"}'' 200 0)"

definition twoNodes :: EditorState where
  "twoNodes = run parseTable flowPosition [dropActor, dropUseCase] initialState"

definition unknownHandleRun :: "action list" where
  "unknownHandleRun =
     [dropActor, dropUseCase,
      Connect 5 (connectionOf ''node_1'' (Some ''bogus'') ''node_2'' (Some ''left-target''))]"

definition sameClockRun :: "action list" where
  "sameClockRun =
     [dropActor, dropUseCase,
      Connect 5 (connectionOf ''node_1'' (Some ''right-source'') ''node_2'' (Some ''left-target'')),
      Connect 5 (connectionOf ''node_2'' (Some ''right-source'') ''node_1'' (Some ''left-target''))]"

definition deleteNodeRun :: "action list" where
  "deleteNodeRun =
     [dropActor, dropUseCase,
      Connect 5 (connectionOf ''node_1'' (Some ''right-source'') ''node_2'' (Some ''left-target'')),
      SelectionChange [''node_1''] [],
      DeleteSelected]"

definition regularRun :: "action list" where
  "regularRun =
     [dropActor, dropUseCase,
      Connect 5 (connectionOf ''node_1'' (Some ''right-source'') ''node_2'' (Some ''left-target'')),
      SelectionChange [''node_1''] [''edge_5''],
      DeleteSelected]"

definition nodeSelected :: EditorState where
  "nodeSelected =
     run parseTable flowPosition
       [dropActor, dropUseCase,
        Connect 5 (connectionOf ''node_1'' (Some ''right-source'') ''node_2'' (Some ''left-target'')),
        SelectionChange [''node_1''] []]
       initialState"

definition bogusConnection :: Connection where
  "bogusConnection = connectionOf ''node_1'' (Some ''bogus'') ''node_2'' (Some ''left-target'')"

text \<open>A diagram handed to the editor as \<^verbatim>\<open>initialNodes\<close> while the counter is still at 1.\<close>

definition preloaded :: EditorState where
  "preloaded =
     initialState\<lparr>nodes := [\<lparr>nid = ''node_1'', ntype = ''actor'',
                              position = \<lparr>pos_x = 0, pos_y = 0\<rparr>,
                              ndata = [(''label'', JStr ''Admin'')], nselected = False\<rparr>]\<rparr>"

definition exampleNode :: "string \<Rightarrow> Node" where
  "exampleNode type =
     \<lparr>nid = ''node_1'', ntype = type, position = \<lparr>pos_x = 0, pos_y = 0\<rparr>,
      ndata = [(''label'', JStr ''Example'')], nselected = False\<rparr>"

definition labelledRun :: "action list" where
  "labelledRun =
     [dropActor, dropUseCase,
      SelectEdgeType ''dependency'',
      Connect 5 (connectionOf ''node_1'' (Some ''right-source'') ''node_2'' (Some ''left-target'')),
      SaveEdgeLabel ''edge_5'' (guillemets ''include'') ''uses'']"

definition labelled :: EditorState where
  "labelled = run parseTable flowPosition labelledRun initialState"

definition scenarioRun :: "action list" where
  "scenarioRun =
     [dropActor, dropUseCase,
      Connect 5 (connectionOf ''node_1'' (Some ''right-source'') ''node_2'' (Some ''left-target''))]"

definition dependencyRun :: "action list" where
  "dependencyRun =
     [dropActor, dropUseCase,
      SelectEdgeType ''dependency'',
      Connect 5 (connectionOf ''node_1'' (Some ''right-source'') ''node_2'' (Some ''left-target''))]"

definition dependent :: EditorState where
  "dependent = run parseTable flowPosition dependencyRun initialState"

definition dropSystem :: DragEvent where
  "dropSystem = dropOf ''system'' ''{}'' 15 30"

definition dropNothing :: DragEvent where
  "dropNothing = dropOf '''' ''{}'' 15 30"

definition dropBroken :: DragEvent where
  "dropBroken = dropOf ''actor'' ''{broken'' 15 30"

lemma nat_of_string_snoc:
  "nat_of_string (cs @ [c]) = 10 * nat_of_string cs + (of_char c - 48)"
  by (simp add: nat_of_string_def)

lemma nat_of_string_of_nat: "nat_of_string (string_of_nat n) = n"
proof (induction n rule: string_of_nat.induct)
  case (1 n)
  show ?case
  proof (cases "n < 10")
    case True
    then show ?thesis
      by (subst string_of_nat.simps) (simp add: nat_of_string_def)
  next
    case False
    have d: "(48 + n mod 10) mod 256 = 48 + n mod 10"
      by (rule mod_less) (simp add: less_le_trans [OF add_strict_left_mono [OF mod_less_divisor]])
    from False 1 have "nat_of_string (string_of_nat (n div 10)) = n div 10"
      by simp
    with False d show ?thesis
      by (subst string_of_nat.simps) (simp add: nat_of_string_snoc)
  qed
qed

lemma string_of_nat_inj: "string_of_nat m = string_of_nat n \<Longrightarrow> m = n"
  by (metis nat_of_string_of_nat)



lemma nodeIdOf_inj: "nodeIdOf j = nodeIdOf k \<Longrightarrow> j = k"
  by (simp add: nodeIdOf_def string_of_nat_inj)

lemma edgeIdOf_inj: "edgeIdOf j = edgeIdOf k \<Longrightarrow> j = k"
  by (simp add: edgeIdOf_def string_of_nat_inj)

lemma onDrop_no_type:
  "getData (dataTransfer event) ''application/reactflow-type'' = '''' \<Longrightarrow>
   onDrop P F event s = Inr s"
  by (simp add: onDrop_def)


lemma onDrop_with_type:
  "getData (dataTransfer event) ''application/reactflow-type'' \<noteq> '''' \<Longrightarrow>
   onDrop P F event s =
     Inr (s\<lparr>nodes := nodes s @ [newNode P F event s],
            nodeIdCounter := nodeIdCounter s + 1\<rparr>)"
  by (simp add: onDrop_def newNode_def generateNodeId_def bind_exn_def try_catch_def Let_def
      split: sum.splits)

lemma nodeIdsBelow_fresh:
  "nodeIdsBelow s \<Longrightarrow> nodeIdOf (nodeIdCounter s) \<notin> set (map nid (nodes s))"
proof
  assume b: "nodeIdsBelow s" and "nodeIdOf (nodeIdCounter s) \<in> set (map nid (nodes s))"
  then obtain n where n: "n \<in> set (nodes s)" "nid n = nodeIdOf (nodeIdCounter s)"
    by auto
  from b n(1) have "nid n \<in> set (map nodeIdOf [0..<nodeIdCounter s])"
    by (simp add: nodeIdsBelow_def list_all_iff)
  then obtain k where "k < nodeIdCounter s" "nid n = nodeIdOf k"
    by auto
  with n(2) show False
    using nodeIdOf_inj [of k "nodeIdCounter s"] by simp
qed

lemma edgeIdsBefore_fresh:
  "edgeIdsBefore now es \<Longrightarrow> edgeIdOf now \<notin> set (map eid es)"
proof
  assume b: "edgeIdsBefore now es" and "edgeIdOf now \<in> set (map eid es)"
  then obtain e where e: "e \<in> set es" "eid e = edgeIdOf now"
    by auto
  from b e(1) have "eid e \<in> set (map edgeIdOf [0..<now])"
    by (simp add: edgeIdsBefore_def list_all_iff)
  then obtain k where "k < now" "eid e = edgeIdOf k"
    by auto
  with e(2) show False
    using edgeIdOf_inj [of k now] by simp
qed


lemma nodesOk_onDrop:
  assumes "nodesOk s" and "onDrop P F event s = Inr s'"
  shows "nodesOk s'"
proof (cases "getData (dataTransfer event) ''application/reactflow-type'' = ''''")
  case True
  with assms show ?thesis by (simp add: onDrop_no_type)
next
  case False
  with assms(2) have s': "s' = s\<lparr>nodes := nodes s @ [newNode P F event s],
            nodeIdCounter := nodeIdCounter s + 1\<rparr>"
    by (simp add: onDrop_with_type)
  have i: "nid (newNode P F event s) = nodeIdOf (nodeIdCounter s)"
    by (simp add: newNode_def Let_def)
  from assms(1) have "nodeIdOf (nodeIdCounter s) \<notin> set (map nid (nodes s))"
    using nodeIdsBelow_fresh [of s] by (simp add: nodesOk_def)
  moreover from assms(1) have "nodeIdsBelow s'"
    unfolding s' nodesOk_def nodeIdsBelow_def list_all_iff
    by (auto simp: i)
  ultimately show ?thesis
    using assms(1) by (simp add: nodesOk_def s' i)
qed

lemma nodeIdsBelow_iff:
  "nodeIdsBelow s \<longleftrightarrow> set (map nid (nodes s)) \<subseteq> set (map nodeIdOf [0..<nodeIdCounter s])"
  by (auto simp: nodeIdsBelow_def list_all_iff)

lemma nodesOk_cong:
  "nodesOk s \<Longrightarrow> map nid (nodes s') = map nid (nodes s) \<Longrightarrow>
   nodeIdCounter s' = nodeIdCounter s \<Longrightarrow> nodesOk s'"
  by (simp add: nodesOk_def nodeIdsBelow_iff)

lemma map_nid_relabel:
  "map nid (map (\<lambda>n. if nid n = i then n\<lparr>ndata := f n\<rparr> else n) ns) = map nid ns"
  by (induction ns) auto

lemma nodesOk_step: "nodesOk s \<Longrightarrow> nodesOk (step P F a s)"
proof (cases a)
  case (Drop event)
  assume "nodesOk s"
  then show ?thesis using Drop nodesOk_onDrop [of s P F event]
    by (simp add: step_def split: sum.splits)
next
  case (Connect now params)
  assume "nodesOk s"
  then show ?thesis using Connect
    by (simp add: step_def onConnect_def nodesOk_def nodeIdsBelow_def)
next
  case (SelectEdgeType t)
  assume "nodesOk s"
  then show ?thesis using SelectEdgeType
    by (simp add: step_def nodesOk_def nodeIdsBelow_def)
next
  case (SelectionChange ns es)
  assume "nodesOk s"
  then show ?thesis using SelectionChange
    by (simp add: step_def selectionChange_def nodesOk_def nodeIdsBelow_def list_all_iff comp_def)
next
  case DeleteSelected
  assume "nodesOk s"
  then show ?thesis using DeleteSelected
    by (simp add: step_def handleDeleteSelected_def nodesOk_def nodeIdsBelow_def list_all_iff
        distinct_map_filter)
next
  case (SaveEdgeLabel i v t)
  assume "nodesOk s"
  then show ?thesis using SaveEdgeLabel
    by (simp add: step_def handleSave_def nodesOk_def nodeIdsBelow_def Let_def)
next
  case (SaveNodeLabel i v t)
  assume "nodesOk s"
  have m: "nodes (EditableLabel_handleSave i v t s) = nodes s \<or> nodes (EditableLabel_handleSave i v t s) = map (\<lambda>n. if nid n = i then n\<lparr>ndata := AList.update ''label'' (JStr (trim t)) (ndata n)\<rparr> else n) (nodes s)"
    by (simp add: EditableLabel_handleSave_def Let_def)
  have c: "nodeIdCounter (EditableLabel_handleSave i v t s) = nodeIdCounter s"
    by (simp add: EditableLabel_handleSave_def Let_def)
  have "map nid (nodes (EditableLabel_handleSave i v t s)) = map nid (nodes s)"
    using m map_nid_relabel [of i "\<lambda>n. AList.update ''label'' (JStr (trim t)) (ndata n)" "nodes s"] by auto
  with \<open>nodesOk s\<close> c show ?thesis using SaveNodeLabel
    by (simp add: step_def nodesOk_cong)
qed

lemma nodesOk_run: "nodesOk s \<Longrightarrow> nodesOk (run P F as s)"
  unfolding run_def by (induction as arbitrary: s) (simp_all add: nodesOk_step)



lemma handlesOf_cong: "ntype n = ntype m \<Longrightarrow> handlesOf n = handlesOf m"
  by (simp add: handlesOf_def useCaseNodeTypes_def ActorNode_def UseCaseNode_def SystemNode_def
      builtinNode_def)

lemma isHandleOf_iff:
  "isHandleOf ns i h \<longleftrightarrow> (\<exists>n\<in>set ns. nid n = i \<and> h \<in> set (map hid (handlesOf n)))"
  by (simp add: isHandleOf_def list_ex_iff)

lemma isHandleOf_append: "isHandleOf ns i h \<Longrightarrow> isHandleOf (ns @ ms) i h"
  by (auto simp: isHandleOf_iff)

lemma isHandleOf_map:
  assumes "\<And>n. nid (f n) = nid n" and "\<And>n. ntype (f n) = ntype n"
  shows "isHandleOf (map f ns) i h = isHandleOf ns i h"
proof -
  have "\<And>n. handlesOf (f n) = handlesOf n"
    by (rule handlesOf_cong) (rule assms(2))
  with assms(1) show ?thesis
    by (simp add: isHandleOf_iff)
qed

lemma handlesValid_iff:
  "handlesValid s \<longleftrightarrow>
     (\<forall>e\<in>set (edges s). isHandleOf (nodes s) (source e) (sourceHandle e) \<and>
                          isHandleOf (nodes s) (target e) (targetHandle e))"
  by (simp add: handlesValid_def list_all_iff)

lemma isHandleOf_nid: "isHandleOf ns i h \<Longrightarrow> i \<in> nid ` set ns"
  by (auto simp: isHandleOf_iff)

lemma handlesValid_endpointsExist: "handlesValid s \<Longrightarrow> endpointsExist s"
  by (auto simp: handlesValid_iff endpointsExist_def list_all_iff dest: isHandleOf_nid)


lemma edgesOk_onDrop:
  assumes "edgesOk s" and "onDrop P F event s = Inr s'"
  shows "edgesOk s'"
proof (cases "getData (dataTransfer event) ''application/reactflow-type'' = ''''")
  case True
  with assms show ?thesis by (simp add: onDrop_no_type)
next
  case False
  with assms(2) have s': "s' = s\<lparr>nodes := nodes s @ [newNode P F event s],
            nodeIdCounter := nodeIdCounter s + 1\<rparr>"
    by (simp add: onDrop_with_type)
  from assms(1) show ?thesis
    by (auto simp: edgesOk_def uniqueEdgeIds_def handlesValid_iff s' isHandleOf_append)
qed

lemma newEdge_fields:
  "source (newEdge now params s) = source params"
  "target (newEdge now params s) = target params"
  "sourceHandle (newEdge now params s) = sourceHandle params"
  "targetHandle (newEdge now params s) = targetHandle params"
  "eid (newEdge now params s) = edgeIdOf now"
  "etype (newEdge now params s) = selectedEdgeType s"
  "eselected (newEdge now params s) = False"
  by (simp_all add: newEdge_def)

lemma onConnect_edges_cases:
  "edges (onConnect now params s) = edges s \<or>
   edges (onConnect now params s) = edges s @ [newEdge now params s]"
  by (simp add: onConnect_def addEdge_def)

lemma edgesOk_onConnect:
  assumes "edgesOk s" and "wellFormed (Connect now params) s"
  shows "edgesOk (onConnect now params s)"
proof -
  have n: "nodes (onConnect now params s) = nodes s"
    by (simp add: onConnect_def)
  from assms(2) have f: "edgeIdOf now \<notin> set (map eid (edges s))"
    using edgeIdsBefore_fresh [of now "edges s"] by (simp add: wellFormed_def)
  from assms(2) have h: "isHandleOf (nodes s) (source params) (sourceHandle params)"
    "isHandleOf (nodes s) (target params) (targetHandle params)"
    by (simp_all add: wellFormed_def)
  from onConnect_edges_cases [of now params s] show ?thesis
  proof
    assume "edges (onConnect now params s) = edges s"
    with assms(1) n show ?thesis
      by (simp add: edgesOk_def uniqueEdgeIds_def handlesValid_iff)
  next
    assume "edges (onConnect now params s) = edges s @ [newEdge now params s]"
    with assms(1) n f h show ?thesis
      by (auto simp: edgesOk_def uniqueEdgeIds_def handlesValid_iff newEdge_fields)
  qed
qed

lemma edgesOk_selectionChange:
  assumes "edgesOk s"
  shows "edgesOk (selectionChange ns es s)"
proof -
  have "isHandleOf (map (\<lambda>n. n\<lparr>nselected := nid n \<in> set ns\<rparr>) (nodes s)) i h
        = isHandleOf (nodes s) i h" for i h
    by (rule isHandleOf_map) simp_all
  with assms show ?thesis
    by (auto simp: edgesOk_def uniqueEdgeIds_def handlesValid_iff selectionChange_def comp_def)
qed

lemma edgesOk_handleDeleteSelected:
  assumes "edgesOk s" and "cascadeSelected s"
  shows "edgesOk (handleDeleteSelected s)"
proof -
  have "isHandleOf (filter (\<lambda>n. \<not> nselected n) (nodes s)) i h"
    if e: "e \<in> set (edges s)" "\<not> eselected e" and i: "i = source e \<or> i = target e"
      and h: "isHandleOf (nodes s) i h" for e i h
  proof -
    from h obtain n where n: "n \<in> set (nodes s)" "nid n = i" "h \<in> set (map hid (handlesOf n))"
      by (auto simp: isHandleOf_iff)
    from assms(2) e have "\<not> (\<exists>m\<in>set (nodes s). nselected m \<and> (nid m = source e \<or> nid m = target e))"
      by (auto simp: cascadeSelected_def list_all_iff list_ex_iff)
    with n i have "\<not> nselected n" by auto
    with n show ?thesis by (auto simp: isHandleOf_iff)
  qed
  with assms(1) show ?thesis
    by (auto simp: edgesOk_def uniqueEdgeIds_def handlesValid_iff handleDeleteSelected_def
        distinct_map_filter)
qed

lemma setLabel_fields:
  "source (setLabel l e) = source e"
  "target (setLabel l e) = target e"
  "sourceHandle (setLabel l e) = sourceHandle e"
  "targetHandle (setLabel l e) = targetHandle e"
  "eid (setLabel l e) = eid e"
  "etype (setLabel l e) = etype e"
  "eselected (setLabel l e) = eselected e"
  by (simp_all add: setLabel_def)

lemma map_eid_relabel:
  "map (eid \<circ> (\<lambda>e. if eid e = i then setLabel l e else e)) es = map eid es"
  by (induction es) (auto simp: setLabel_fields)

lemma edgesOk_handleSave:
  assumes "edgesOk s"
  shows "edgesOk (handleSave i v t s)"
proof (cases "trim t \<noteq> v")
  case False
  with assms show ?thesis by (simp add: handleSave_def)
next
  case True
  then have s': "handleSave i v t s =
      s\<lparr>edges := map (\<lambda>e. if eid e = i then setLabel (trim t) e else e) (edges s)\<rparr>"
    by (simp add: handleSave_def)
  from assms have "uniqueEdgeIds (handleSave i v t s)"
    unfolding s' by (simp add: edgesOk_def uniqueEdgeIds_def map_eid_relabel)
  moreover from assms have "handlesValid (handleSave i v t s)"
    unfolding s' by (auto simp: edgesOk_def handlesValid_iff setLabel_fields)
  ultimately show ?thesis by (simp add: edgesOk_def)
qed

lemma edgesOk_EditableLabel_handleSave:
  assumes "edgesOk s"
  shows "edgesOk (EditableLabel_handleSave i v t s)"
proof (cases "trim t \<noteq> '''' \<and> trim t \<noteq> v")
  case False
  with assms show ?thesis by (auto simp: EditableLabel_handleSave_def)
next
  case True
  have "isHandleOf (map (\<lambda>n. if nid n = i
            then n\<lparr>ndata := AList.update ''label'' (JStr (trim t)) (ndata n)\<rparr> else n) (nodes s)) j h
        = isHandleOf (nodes s) j h" for j h
    by (rule isHandleOf_map) simp_all
  with assms True show ?thesis
    by (auto simp: edgesOk_def uniqueEdgeIds_def handlesValid_iff EditableLabel_handleSave_def)
qed

lemma edgesOk_step: "edgesOk s \<Longrightarrow> wellFormed a s \<Longrightarrow> edgesOk (step P F a s)"
proof (cases a)
  case (Drop event)
  assume "edgesOk s"
  then show ?thesis using Drop edgesOk_onDrop [of s P F event]
    by (simp add: step_def split: sum.splits)
next
  case (Connect now params)
  assume "edgesOk s" "wellFormed a s"
  then show ?thesis using Connect by (simp add: step_def edgesOk_onConnect)
next
  case (SelectEdgeType t)
  assume "edgesOk s"
  then show ?thesis using SelectEdgeType
    by (simp add: step_def edgesOk_def uniqueEdgeIds_def handlesValid_def)
next
  case (SelectionChange ns es)
  assume "edgesOk s"
  then show ?thesis using SelectionChange by (simp add: step_def edgesOk_selectionChange)
next
  case DeleteSelected
  assume "edgesOk s" "wellFormed a s"
  then show ?thesis using DeleteSelected
    by (simp add: step_def edgesOk_handleDeleteSelected wellFormed_def)
next
  case (SaveEdgeLabel i v t)
  assume "edgesOk s"
  then show ?thesis using SaveEdgeLabel by (simp add: step_def edgesOk_handleSave)
next
  case (SaveNodeLabel i v t)
  assume "edgesOk s"
  then show ?thesis using SaveNodeLabel by (simp add: step_def edgesOk_EditableLabel_handleSave)
qed

lemma edgesOk_run: "edgesOk s \<Longrightarrow> admissible P F as s \<Longrightarrow> edgesOk (run P F as s)"
  unfolding run_def by (induction as arbitrary: s) (simp_all add: edgesOk_step)

lemma setLabel_data:
  "map_option label (edata (setLabel l e)) = Some (Some l)"
  "Option.bind (edata (setLabel l e)) dtype = Option.bind (edata e) dtype"
  by (simp_all add: setLabel_def split: option.splits)

text \<open>
  What the two label editors do in general: the node editor commits a trimmed text that is
  non-empty and new, and otherwise changes nothing; the edge editor commits every trimmed
  text that is new, and otherwise changes nothing.
\<close>

lemma EditableLabel_handleSave_commit:
  "(trim t \<noteq> '''' \<and> trim t \<noteq> v \<longrightarrow>
      nodes (EditableLabel_handleSave i v t s) =
        map (\<lambda>n. if nid n = i
                  then n\<lparr>ndata := AList.update ''label'' (JStr (trim t)) (ndata n)\<rparr>
                  else n) (nodes s) \<and>
      edges (EditableLabel_handleSave i v t s) = edges s) \<and>
   (trim t = '''' \<or> trim t = v \<longrightarrow> EditableLabel_handleSave i v t s = s) \<and>
   map_of (AList.update ''label'' (JStr l) dat) ''label'' = Some (JStr l)"
  by (auto simp: EditableLabel_handleSave_def update_conv')

lemma handleSave_commit:
  "(trim t \<noteq> v \<longrightarrow>
      edges (handleSave i v t s) =
        map (\<lambda>e. if eid e = i then setLabel (trim t) e else e) (edges s) \<and>
      nodes (handleSave i v t s) = nodes s) \<and>
   (trim t = v \<longrightarrow> handleSave i v t s = s)"
  by (auto simp: handleSave_def)

lemma nodeIdsBelow_append:
  "nodeIdsBelow s \<Longrightarrow> nid n = nodeIdOf (nodeIdCounter s) \<Longrightarrow>
   nodeIdsBelow (s\<lparr>nodes := nodes s @ [n], nodeIdCounter := nodeIdCounter s + 1\<rparr>)"
  by (auto simp: nodeIdsBelow_def list_all_iff)

lemma edgeIdsBefore_Suc:
  "edgeIdsBefore now es \<Longrightarrow> edgeIdsBefore (Suc now) es"
  by (auto simp: edgeIdsBefore_def list_all_iff)

lemma edgeIdsBefore_snoc:
  "edgeIdsBefore now es \<Longrightarrow> eid e = edgeIdOf now \<Longrightarrow> edgeIdsBefore (Suc now) (es @ [e])"
  by (auto simp: edgeIdsBefore_def list_all_iff)

lemma nid_newNode: "nid (newNode P F event s) = nodeIdOf (nodeIdCounter s)"
  by (simp add: newNode_def Let_def)

lemma capitalize_Cons:
  "toUpperCase (charAt0 (c # cs)) @ slice1 (c # cs) = toUpperCase_char c # cs"
  by (simp add: toUpperCase_def charAt0_def slice1_def)

section \<open>Claims\<close>

subsection \<open>C1: validity of reachable diagrams\<close>

text \<open>
  C1. Claimed: every diagram reachable from the empty diagram by editor operations passes
  \<open>validate\<close>. The editor does not enforce this: \<^verbatim>\<open>onConnect\<close> checks neither handles
  nor ids, and \<^verbatim>\<open>handleDeleteSelected\<close> keeps the edges of a deleted node. What holds:
  after every sequence of operations from the empty diagram (whatever the counter's
  start) node ids are unique; and \<open>validate\<close> holds after every sequence in which each
  connection joins handles of existing nodes at a clock reading later than that of every
  existing edge, and each deletion has the edges attached to the selected nodes selected.
\<close>

theorem reachable_validate:
  "distinct (map nid (nodes (run P F as (initialState\<lparr>nodeIdCounter := c\<rparr>)))) \<and>
   (admissible P F as (initialState\<lparr>nodeIdCounter := c\<rparr>) \<longrightarrow>
      validate (run P F as (initialState\<lparr>nodeIdCounter := c\<rparr>)))"
proof -
  let ?s = "initialState\<lparr>nodeIdCounter := c\<rparr>"
  have "nodesOk ?s"
    by (simp add: nodesOk_def nodeIdsBelow_def initialState_def)
  then have n: "nodesOk (run P F as ?s)"
    by (rule nodesOk_run)
  have e: "edgesOk ?s"
    by (simp add: edgesOk_def uniqueEdgeIds_def handlesValid_def initialState_def)
  have "validate (run P F as ?s)" if "admissible P F as ?s"
  proof -
    from e that have "edgesOk (run P F as ?s)" by (rule edgesOk_run)
    with n show ?thesis
      by (simp add: validate_def uniqueNodeIds_def nodesOk_def edgesOk_def
          handlesValid_endpointsExist)
  qed
  with n show ?thesis by (simp add: nodesOk_def)
qed

text \<open>
  A regular run (two drops, a connection from the actor's \<open>right-source\<close> to the use
  case's \<open>left-target\<close>, and a deletion of the actor with its edge) and the run of two
  drops and that connection alone.
\<close>

theorem reachable_validate_witness:
  "admissible parseTable flowPosition regularRun initialState \<and>
   validate (run parseTable flowPosition regularRun initialState) \<and>
   distinct (map nid (nodes (run parseTable flowPosition regularRun initialState))) \<and>
   admissible parseTable flowPosition scenarioRun initialState \<and>
   validate (run parseTable flowPosition scenarioRun initialState) \<and>
   length (edges (run parseTable flowPosition scenarioRun initialState)) = 1"
proof -
  have i: "initialState\<lparr>nodeIdCounter := 1\<rparr> = initialState"
    by (simp add: initialState_def)
  have a: "admissible parseTable flowPosition regularRun initialState"
    by code_simp
  have b: "admissible parseTable flowPosition scenarioRun initialState"
    by code_simp
  have c: "length (edges (run parseTable flowPosition scenarioRun initialState)) = 1"
    by code_simp
  note t = reachable_validate [of parseTable flowPosition regularRun 1, unfolded i]
  note u = reachable_validate [of parseTable flowPosition scenarioRun 1, unfolded i]
  note 1 = t [THEN conjunct2, THEN mp, OF a]
  note 2 = t [THEN conjunct1]
  note 3 = u [THEN conjunct2, THEN mp, OF b]
  from a 1 2 b 3 c show ?thesis by (intro conjI)
qed

text \<open>
  The claim fails on three runs: a connection through a handle id the actor does not have,
  two connections (through handles the nodes have) at the same clock reading, and the
  deletion of a node whose edge is not selected.
\<close>

theorem reachable_validate_counterexample:
  "(\<not> handlesValid (run parseTable flowPosition unknownHandleRun initialState) \<and>
    \<not> uniqueEdgeIds (run parseTable flowPosition sameClockRun initialState) \<and>
    \<not> endpointsExist (run parseTable flowPosition deleteNodeRun initialState)) \<and>
   \<not> validate (run parseTable flowPosition unknownHandleRun initialState) \<and>
   \<not> validate (run parseTable flowPosition sameClockRun initialState) \<and>
   \<not> validate (run parseTable flowPosition deleteNodeRun initialState)"
  by code_simp

subsection \<open>C2: deleting a selection\<close>

text \<open>
  C2. Claimed: deleting a selection also removes every edge attached to a deleted node.
  Evaluation of \<^verbatim>\<open>handleDeleteSelected\<close> on the diagram with an actor (selected), a use
  case and an unselected edge between them: the actor goes, the edge stays and its source
  names a node that no longer exists.
\<close>

theorem handleDeleteSelected_keeps_attached_edge:
  "map nid (nodes nodeSelected) = [''node_1'', ''node_2''] \<and>
   map nselected (nodes nodeSelected) = [True, False] \<and>
   map source (edges nodeSelected) = [''node_1''] \<and>
   map nid (nodes (handleDeleteSelected nodeSelected)) = [''node_2''] \<and>
   edges (handleDeleteSelected nodeSelected) = edges nodeSelected"
  by code_simp

subsection \<open>C3: connecting through an unknown handle\<close>

text \<open>
  C3 (as amended). \<^verbatim>\<open>onConnect\<close> does not look at the handle sets of the nodes: for
  every state and every connection with non-empty source and target that is not already
  present, exactly one edge carrying the given handle ids is appended, whatever these
  ids are; the edge list is unchanged exactly when source or target is empty or the same
  connection exists already. The nodes are never touched.
\<close>

theorem onConnect_appends:
  "(source params \<noteq> '''' \<and> target params \<noteq> '''' \<and>
    \<not> connectionExists (newEdge now params s) (edges s) \<longrightarrow>
      edges (onConnect now params s) = edges s @ [newEdge now params s]) \<and>
   (source params = '''' \<or> target params = '''' \<or>
    connectionExists (newEdge now params s) (edges s) \<longrightarrow>
      edges (onConnect now params s) = edges s) \<and>
   nodes (onConnect now params s) = nodes s \<and>
   source (newEdge now params s) = source params \<and>
   sourceHandle (newEdge now params s) = sourceHandle params \<and>
   target (newEdge now params s) = target params \<and>
   targetHandle (newEdge now params s) = targetHandle params"
  by (simp add: onConnect_def addEdge_def newEdge_fields)

text \<open>Connecting through the unknown handle \<open>bogus\<close> appends; connecting again does not.\<close>

theorem onConnect_appends_witness:
  "source bogusConnection \<noteq> '''' \<and> target bogusConnection \<noteq> '''' \<and>
   \<not> connectionExists (newEdge 5 bogusConnection twoNodes) (edges twoNodes) \<and>
   \<not> isHandleOf (nodes twoNodes) (source bogusConnection) (sourceHandle bogusConnection) \<and>
   edges (onConnect 5 bogusConnection twoNodes) = edges twoNodes @ [newEdge 5 bogusConnection twoNodes] \<and>
   connectionExists (newEdge 6 bogusConnection (onConnect 5 bogusConnection twoNodes))
     (edges (onConnect 5 bogusConnection twoNodes)) \<and>
   edges (onConnect 6 bogusConnection (onConnect 5 bogusConnection twoNodes)) =
     edges (onConnect 5 bogusConnection twoNodes)"
proof -
  have a: "source bogusConnection \<noteq> '''' \<and> target bogusConnection \<noteq> '''' \<and>
      \<not> connectionExists (newEdge 5 bogusConnection twoNodes) (edges twoNodes)"
    by code_simp
  have b: "connectionExists (newEdge 6 bogusConnection (onConnect 5 bogusConnection twoNodes))
     (edges (onConnect 5 bogusConnection twoNodes))"
    by code_simp
  have c: "\<not> isHandleOf (nodes twoNodes) (source bogusConnection) (sourceHandle bogusConnection)"
    by code_simp
  from a b c onConnect_appends [of bogusConnection 5 twoNodes]
    onConnect_appends [of bogusConnection 6 "onConnect 5 bogusConnection twoNodes"]
  show ?thesis by blast
qed

text \<open>The claim as stated fails: the actor has no handle \<open>bogus\<close>, yet an edge is created.\<close>

theorem onConnect_unknown_handle_counterexample:
  "\<not> isHandleOf (nodes twoNodes) (source bogusConnection) (sourceHandle bogusConnection) \<and>
   edges twoNodes = [] \<and>
   length (edges (onConnect 5 bogusConnection twoNodes)) = 1 \<and>
   map sourceHandle (edges (onConnect 5 bogusConnection twoNodes)) = [Some ''bogus'']"
  by code_simp

subsection \<open>C4: committing a label\<close>

text \<open>
  C4. Claimed: for a node as for an edge, a committed text whose trimmed form is empty
  leaves the label exactly as it was, and \<open>'' New ''\<close> sets the label to \<open>''New''\<close>.
  Evaluation of the two editors on the dependency edge labelled \<open>uses\<close> and on the actor
  labelled \<open>Customer\<close>: both commit \<open>'' New ''\<close> as \<open>''New''\<close>; on the blank and on the
  empty text the node editor leaves the diagram as it was, while the edge editor, which
  lacks the emptiness test of the node editor, overwrites \<open>uses\<close> with the empty label
  (the edge then displays its synthesized text again).
\<close>

theorem handleSave_blank_commit:
  "map edata (edges labelled) = [Some \<lparr>label = Some ''uses'', dtype = Some Include\<rparr>] \<and>
   map DependencyEdge (edges labelled) = [Some ''uses''] \<and>
   map edata (edges (handleSave ''edge_5'' ''uses'' ''   '' labelled)) =
     [Some \<lparr>label = Some '''', dtype = Some Include\<rparr>] \<and>
   map edata (edges (handleSave ''edge_5'' ''uses'' '''' labelled)) =
     [Some \<lparr>label = Some '''', dtype = Some Include\<rparr>] \<and>
   map DependencyEdge (edges (handleSave ''edge_5'' ''uses'' ''   '' labelled)) =
     [Some (guillemets ''include'')] \<and>
   map edata (edges (handleSave ''edge_5'' ''uses'' '' New '' labelled)) =
     [Some \<lparr>label = Some ''New'', dtype = Some Include\<rparr>] \<and>
   map ndata (nodes twoNodes) =
     [ [(''label'', JStr ''Customer'')], [(''label'', JStr ''Checkout'')] ] \<and>
   EditableLabel_handleSave ''node_1'' ''Customer'' ''   '' twoNodes = twoNodes \<and>
   EditableLabel_handleSave ''node_1'' ''Customer'' '''' twoNodes = twoNodes \<and>
   map ndata (nodes (EditableLabel_handleSave ''node_1'' ''Customer'' '' New '' twoNodes)) =
     [ [(''label'', JStr ''New'')], [(''label'', JStr ''Checkout'')] ]"
  by code_simp

subsection \<open>C5: handles by node kind\<close>

text \<open>
  C5 (as amended). The handles of a node depend on its kind only. A use case has a source
  and a target handle on each of the four sides; an actor and a system boundary have a
  source and a target handle on the left and on the right side, and none on the top or the
  bottom. Each handle has the id \<open>side-source\<close> or \<open>side-target\<close>.
\<close>

theorem handles_by_kind:
  "(ntype n = ntype m \<longrightarrow> handlesOf n = handlesOf m) \<and>
   (ntype n = ''actor'' \<longrightarrow>
      handlesOf n = [\<lparr>htype = Source, hposition = Right, hid = Some ''right-source''\<rparr>,
                     \<lparr>htype = Target, hposition = Right, hid = Some ''right-target''\<rparr>,
                     \<lparr>htype = Source, hposition = Left, hid = Some ''left-source''\<rparr>,
                     \<lparr>htype = Target, hposition = Left, hid = Some ''left-target''\<rparr>] \<and>
      set (handleSides Source (handlesOf n)) = {Left, Right} \<and>
      set (handleSides Target (handlesOf n)) = {Left, Right}) \<and>
   (ntype n = ''usecase'' \<longrightarrow>
      handlesOf n = [\<lparr>htype = Source, hposition = Left, hid = Some ''left-source''\<rparr>,
                     \<lparr>htype = Target, hposition = Left, hid = Some ''left-target''\<rparr>,
                     \<lparr>htype = Source, hposition = Right, hid = Some ''right-source''\<rparr>,
                     \<lparr>htype = Target, hposition = Right, hid = Some ''right-target''\<rparr>,
                     \<lparr>htype = Source, hposition = Top, hid = Some ''top-source''\<rparr>,
                     \<lparr>htype = Target, hposition = Top, hid = Some ''top-target''\<rparr>,
                     \<lparr>htype = Source, hposition = Bottom, hid = Some ''bottom-source''\<rparr>,
                     \<lparr>htype = Target, hposition = Bottom, hid = Some ''bottom-target''\<rparr>] \<and>
      set (handleSides Source (handlesOf n)) = {Left, Top, Right, Bottom} \<and>
      set (handleSides Target (handlesOf n)) = {Left, Top, Right, Bottom}) \<and>
   (ntype n = ''system'' \<longrightarrow>
      handlesOf n = [\<lparr>htype = Source, hposition = Left, hid = Some ''left-source''\<rparr>,
                     \<lparr>htype = Target, hposition = Left, hid = Some ''left-target''\<rparr>,
                     \<lparr>htype = Source, hposition = Right, hid = Some ''right-source''\<rparr>,
                     \<lparr>htype = Target, hposition = Right, hid = Some ''right-target''\<rparr>] \<and>
      set (handleSides Source (handlesOf n)) = {Left, Right} \<and>
      set (handleSides Target (handlesOf n)) = {Left, Right})"
proof (intro conjI impI)
  assume "ntype n = ntype m"
  then show "handlesOf n = handlesOf m"
    by (rule handlesOf_cong)
next
  assume a: "ntype n = ''actor''"
  then show h: "handlesOf n =
      [\<lparr>htype = Source, hposition = Right, hid = Some ''right-source''\<rparr>,
       \<lparr>htype = Target, hposition = Right, hid = Some ''right-target''\<rparr>,
       \<lparr>htype = Source, hposition = Left, hid = Some ''left-source''\<rparr>,
       \<lparr>htype = Target, hposition = Left, hid = Some ''left-target''\<rparr>]"
    by (simp add: handlesOf_def useCaseNodeTypes_def ActorNode_def)
  show "set (handleSides Source (handlesOf n)) = {Left, Right}"
    "set (handleSides Target (handlesOf n)) = {Left, Right}"
    unfolding h by (auto simp: handleSides_def)
next
  assume a: "ntype n = ''usecase''"
  then show h: "handlesOf n =
      [\<lparr>htype = Source, hposition = Left, hid = Some ''left-source''\<rparr>,
       \<lparr>htype = Target, hposition = Left, hid = Some ''left-target''\<rparr>,
       \<lparr>htype = Source, hposition = Right, hid = Some ''right-source''\<rparr>,
       \<lparr>htype = Target, hposition = Right, hid = Some ''right-target''\<rparr>,
       \<lparr>htype = Source, hposition = Top, hid = Some ''top-source''\<rparr>,
       \<lparr>htype = Target, hposition = Top, hid = Some ''top-target''\<rparr>,
       \<lparr>htype = Source, hposition = Bottom, hid = Some ''bottom-source''\<rparr>,
       \<lparr>htype = Target, hposition = Bottom, hid = Some ''bottom-target''\<rparr>]"
    by (simp add: handlesOf_def useCaseNodeTypes_def UseCaseNode_def)
  show "set (handleSides Source (handlesOf n)) = {Left, Top, Right, Bottom}"
    "set (handleSides Target (handlesOf n)) = {Left, Top, Right, Bottom}"
    unfolding h by (auto simp: handleSides_def)
next
  assume a: "ntype n = ''system''"
  then show h: "handlesOf n =
      [\<lparr>htype = Source, hposition = Left, hid = Some ''left-source''\<rparr>,
       \<lparr>htype = Target, hposition = Left, hid = Some ''left-target''\<rparr>,
       \<lparr>htype = Source, hposition = Right, hid = Some ''right-source''\<rparr>,
       \<lparr>htype = Target, hposition = Right, hid = Some ''right-target''\<rparr>]"
    by (simp add: handlesOf_def useCaseNodeTypes_def SystemNode_def)
  show "set (handleSides Source (handlesOf n)) = {Left, Right}"
    "set (handleSides Target (handlesOf n)) = {Left, Right}"
    unfolding h by (auto simp: handleSides_def)
qed

text \<open>One node of each kind.\<close>

theorem handles_by_kind_witness:
  "ntype (exampleNode ''actor'') = ''actor'' \<and>
   set (handleSides Source (handlesOf (exampleNode ''actor''))) = {Left, Right} \<and>
   ntype (exampleNode ''usecase'') = ''usecase'' \<and>
   set (handleSides Target (handlesOf (exampleNode ''usecase''))) = {Left, Top, Right, Bottom} \<and>
   ntype (exampleNode ''system'') = ''system'' \<and>
   set (handleSides Target (handlesOf (exampleNode ''system''))) = {Left, Right}"
proof -
  have a: "ntype (exampleNode ''actor'') = ''actor''"
    by (simp add: exampleNode_def)
  have u: "ntype (exampleNode ''usecase'') = ''usecase''"
    by (simp add: exampleNode_def)
  have y: "ntype (exampleNode ''system'') = ''system''"
    by (simp add: exampleNode_def)
  note ta = handles_by_kind [of "exampleNode ''actor''" "exampleNode ''actor''"]
  note tu = handles_by_kind [of "exampleNode ''usecase''" "exampleNode ''usecase''"]
  note ty = handles_by_kind [of "exampleNode ''system''" "exampleNode ''system''"]
  note 1 = ta [THEN conjunct2, THEN conjunct1, THEN mp, OF a, THEN conjunct2, THEN conjunct1]
  note 2 = tu [THEN conjunct2, THEN conjunct2, THEN conjunct1, THEN mp, OF u,
      THEN conjunct2, THEN conjunct2]
  note 3 = ty [THEN conjunct2, THEN conjunct2, THEN conjunct2, THEN mp, OF y,
      THEN conjunct2, THEN conjunct2]
  from a u y 1 2 3 show ?thesis by (intro conjI)
qed

text \<open>
  The claim as stated fails on the actor, which has neither a source nor a target handle
  on the top or on the bottom.
\<close>

theorem handles_by_kind_counterexample:
  "Top \<notin> set (handleSides Source (handlesOf (exampleNode ''actor''))) \<and>
   Top \<notin> set (handleSides Target (handlesOf (exampleNode ''actor''))) \<and>
   Bottom \<notin> set (handleSides Source (handlesOf (exampleNode ''actor''))) \<and>
   Bottom \<notin> set (handleSides Target (handlesOf (exampleNode ''actor''))) \<and>
   map hid (handlesOf (exampleNode ''actor'')) =
     [Some ''right-source'', Some ''right-target'', Some ''left-source'', Some ''left-target'']"
  by code_simp

subsection \<open>C6: fresh identifiers\<close>

text \<open>
  C6 (as amended). \<^verbatim>\<open>generateNodeId\<close> returns \<open>node_\<close> followed by the counter and
  increments the counter. Where every node id present stems from an earlier counter
  reading (as in every diagram built from the empty one), the node a drop creates has an
  id distinct from every existing node id, and this stays so after the drop; hence every
  editor operation preserves uniqueness of node ids, and two drops in immediate
  succession get different ids. An edge created by \<^verbatim>\<open>onConnect\<close> has the id \<open>edge_\<close>
  followed by the clock reading: it is distinct from every existing edge id where these
  stem from earlier readings, and two edges created at different readings differ in id.
\<close>

theorem fresh_ids:
  "(nodeIdsBelow s \<and> getData (dataTransfer event) ''application/reactflow-type'' \<noteq> '''' \<longrightarrow>
      (\<exists>n. onDrop P F event s =
             Inr (s\<lparr>nodes := nodes s @ [n], nodeIdCounter := nodeIdCounter s + 1\<rparr>) \<and>
           nid n = nodeIdOf (nodeIdCounter s) \<and>
           nid n \<notin> set (map nid (nodes s)) \<and>
           nodeIdsBelow (s\<lparr>nodes := nodes s @ [n], nodeIdCounter := nodeIdCounter s + 1\<rparr>))) \<and>
   (edgeIdsBefore now (edges s) \<longrightarrow>
      eid (newEdge now params s) = edgeIdOf now \<and>
      eid (newEdge now params s) \<notin> set (map eid (edges s)) \<and>
      (edges (onConnect now params s) = edges s \<or>
       edges (onConnect now params s) = edges s @ [newEdge now params s]) \<and>
      edgeIdsBefore (Suc now) (edges (onConnect now params s))) \<and>
   (nodeIdsBelow s \<and> distinct (map nid (nodes s)) \<longrightarrow>
      nodeIdsBelow (step P F a s) \<and> distinct (map nid (nodes (step P F a s)))) \<and>
   nodeIdOf c \<noteq> nodeIdOf (Suc c) \<and>
   (j \<noteq> k \<longrightarrow> edgeIdOf j \<noteq> edgeIdOf k)"
proof (intro conjI impI)
  assume h: "nodeIdsBelow s \<and> getData (dataTransfer event) ''application/reactflow-type'' \<noteq> ''''"
  let ?n = "newNode P F event s"
  from h have "onDrop P F event s =
      Inr (s\<lparr>nodes := nodes s @ [?n], nodeIdCounter := nodeIdCounter s + 1\<rparr>)"
    by (simp add: onDrop_with_type)
  moreover have "nid ?n = nodeIdOf (nodeIdCounter s)"
    by (rule nid_newNode)
  moreover from h have "nid ?n \<notin> set (map nid (nodes s))"
    using nodeIdsBelow_fresh [of s] by (simp add: nid_newNode)
  moreover from h have
    "nodeIdsBelow (s\<lparr>nodes := nodes s @ [?n], nodeIdCounter := nodeIdCounter s + 1\<rparr>)"
    using nodeIdsBelow_append [of s ?n] by (simp add: nid_newNode)
  ultimately show "\<exists>n. onDrop P F event s =
             Inr (s\<lparr>nodes := nodes s @ [n], nodeIdCounter := nodeIdCounter s + 1\<rparr>) \<and>
           nid n = nodeIdOf (nodeIdCounter s) \<and>
           nid n \<notin> set (map nid (nodes s)) \<and>
           nodeIdsBelow (s\<lparr>nodes := nodes s @ [n], nodeIdCounter := nodeIdCounter s + 1\<rparr>)"
    by blast
next
  show "eid (newEdge now params s) = edgeIdOf now"
    by (simp add: newEdge_fields)
next
  assume "edgeIdsBefore now (edges s)"
  then show "eid (newEdge now params s) \<notin> set (map eid (edges s))"
    using edgeIdsBefore_fresh [of now "edges s"] by (simp add: newEdge_fields)
next
  show "edges (onConnect now params s) = edges s \<or>
       edges (onConnect now params s) = edges s @ [newEdge now params s]"
    by (rule onConnect_edges_cases)
next
  assume b: "edgeIdsBefore now (edges s)"
  from onConnect_edges_cases [of now params s]
  show "edgeIdsBefore (Suc now) (edges (onConnect now params s))"
  proof
    assume "edges (onConnect now params s) = edges s"
    with b show ?thesis by (simp add: edgeIdsBefore_Suc)
  next
    assume "edges (onConnect now params s) = edges s @ [newEdge now params s]"
    with b show ?thesis by (simp add: edgeIdsBefore_snoc newEdge_fields)
  qed
next
  assume "nodeIdsBelow s \<and> distinct (map nid (nodes s))"
  then have "nodesOk (step P F a s)"
    using nodesOk_step [of s P F a] by (simp add: nodesOk_def)
  then show "nodeIdsBelow (step P F a s)" "distinct (map nid (nodes (step P F a s)))"
    by (simp_all add: nodesOk_def)
next
  show "nodeIdOf c \<noteq> nodeIdOf (Suc c)"
    using nodeIdOf_inj [of c "Suc c"] by auto
next
  assume "j \<noteq> k"
  then show "edgeIdOf j \<noteq> edgeIdOf k"
    using edgeIdOf_inj [of j k] by auto
qed

text \<open>On the diagram of two nodes and the edge created at reading 5.\<close>

theorem fresh_ids_witness:
  "nodeIdsBelow nodeSelected \<and> distinct (map nid (nodes nodeSelected)) \<and>
   getData (dataTransfer (dropOf ''system'' ''{}'' 0 0)) ''application/reactflow-type'' \<noteq> '''' \<and>
   edgeIdsBefore 6 (edges nodeSelected) \<and> (5::nat) \<noteq> 6 \<and>
   (\<exists>n. onDrop parseTable flowPosition (dropOf ''system'' ''{}'' 0 0) nodeSelected =
          Inr (nodeSelected\<lparr>nodes := nodes nodeSelected @ [n],
                              nodeIdCounter := nodeIdCounter nodeSelected + 1\<rparr>) \<and>
        nid n \<notin> set (map nid (nodes nodeSelected))) \<and>
   eid (newEdge 6 bogusConnection nodeSelected) \<notin> set (map eid (edges nodeSelected)) \<and>
   distinct (map nid (nodes (step parseTable flowPosition dropActor nodeSelected))) \<and>
   edgeIdOf 5 \<noteq> edgeIdOf 6"
proof -
  have a: "nodeIdsBelow nodeSelected" "distinct (map nid (nodes nodeSelected))"
    "getData (dataTransfer (dropOf ''system'' ''{}'' 0 0)) ''application/reactflow-type'' \<noteq> ''''"
    "edgeIdsBefore 6 (edges nodeSelected)" "(5::nat) \<noteq> 6"
    by code_simp+
  note t = fresh_ids [of nodeSelected "dropOf ''system'' ''{}'' 0 0" parseTable flowPosition 6
      bogusConnection dropActor 0 5 6]
  from a t have 1: "\<exists>n. onDrop parseTable flowPosition (dropOf ''system'' ''{}'' 0 0) nodeSelected =
          Inr (nodeSelected\<lparr>nodes := nodes nodeSelected @ [n],
                              nodeIdCounter := nodeIdCounter nodeSelected + 1\<rparr>) \<and>
        nid n \<notin> set (map nid (nodes nodeSelected))"
    by blast
  from a t have 2: "eid (newEdge 6 bogusConnection nodeSelected) \<notin> set (map eid (edges nodeSelected))"
    by blast
  from a t have 3: "distinct (map nid (nodes (step parseTable flowPosition dropActor nodeSelected)))"
    by blast
  from a t have 4: "edgeIdOf 5 \<noteq> edgeIdOf 6"
    by blast
  from a 1 2 3 4 show ?thesis by (intro conjI)
qed

text \<open>
  The claim as stated fails: two connections at the same clock reading share an edge id,
  and a drop onto a diagram that came with a node \<open>node_1\<close> while the counter stands at 1
  repeats that id.
\<close>

theorem fresh_ids_counterexample:
  "map eid (edges (run parseTable flowPosition sameClockRun initialState)) =
     [''edge_5'', ''edge_5''] \<and>
   map nid (nodes preloaded) = [''node_1''] \<and>
   map nid (nodes (step parseTable flowPosition dropActor preloaded)) = [''node_1'', ''node_1'']"
  by code_simp

subsection \<open>C7: the kind of a new edge\<close>

text \<open>
  C7. \<^verbatim>\<open>onConnect\<close> leaves the edges as they are or appends the edge it built. While
  the selected edge type is \<open>dependency\<close> that edge has type \<open>dependency\<close> and carries
  the dependency type include and no label (the connection has no field by which a caller
  could ask for extend); while it is \<open>association\<close> the edge has type \<open>association\<close>
  and carries no data, hence no label and no dependency type. Dropping an actor, dropping
  a use case and connecting them under the initial selection yields two nodes and one
  edge of type \<open>association\<close> without data, which renders no label.
\<close>

theorem onConnect_edge_kind:
  "(edges (onConnect now params s) = edges s \<or>
    edges (onConnect now params s) = edges s @ [newEdge now params s]) \<and>
   (selectedEdgeType s = ''dependency'' \<longrightarrow>
      etype (newEdge now params s) = ''dependency'' \<and>
      edata (newEdge now params s) = Some \<lparr>label = None, dtype = Some Include\<rparr>) \<and>
   (selectedEdgeType s = ''association'' \<longrightarrow>
      etype (newEdge now params s) = ''association'' \<and>
      edata (newEdge now params s) = None) \<and>
   length (nodes (run parseTable flowPosition scenarioRun initialState)) = 2 \<and>
   map ntype (nodes (run parseTable flowPosition scenarioRun initialState)) =
     [''actor'', ''usecase''] \<and>
   length (edges (run parseTable flowPosition scenarioRun initialState)) = 1 \<and>
   map etype (edges (run parseTable flowPosition scenarioRun initialState)) = [''association''] \<and>
   map edata (edges (run parseTable flowPosition scenarioRun initialState)) = [None] \<and>
   map AssociationEdge (edges (run parseTable flowPosition scenarioRun initialState)) = [None]"
proof -
  have sc: "length (nodes (run parseTable flowPosition scenarioRun initialState)) = 2 \<and>
   map ntype (nodes (run parseTable flowPosition scenarioRun initialState)) =
     [''actor'', ''usecase''] \<and>
   length (edges (run parseTable flowPosition scenarioRun initialState)) = 1 \<and>
   map etype (edges (run parseTable flowPosition scenarioRun initialState)) = [''association''] \<and>
   map edata (edges (run parseTable flowPosition scenarioRun initialState)) = [None] \<and>
   map AssociationEdge (edges (run parseTable flowPosition scenarioRun initialState)) = [None]"
    by code_simp
  have dep: "selectedEdgeType s = ''dependency'' \<longrightarrow>
      etype (newEdge now params s) = ''dependency'' \<and>
      edata (newEdge now params s) = Some \<lparr>label = None, dtype = Some Include\<rparr>"
    by (simp add: newEdge_def)
  have assoc: "selectedEdgeType s = ''association'' \<longrightarrow>
      etype (newEdge now params s) = ''association'' \<and>
      edata (newEdge now params s) = None"
    by (simp add: newEdge_def)
  show ?thesis
    by (rule conjI [OF onConnect_edges_cases conjI [OF dep conjI [OF assoc sc]]])
qed

text \<open>Both selections on the diagram of two nodes, and a run under \<open>dependency\<close>.\<close>

theorem onConnect_edge_kind_witness:
  "selectedEdgeType (twoNodes\<lparr>selectedEdgeType := ''dependency''\<rparr>) = ''dependency'' \<and>
   edata (newEdge 5 bogusConnection (twoNodes\<lparr>selectedEdgeType := ''dependency''\<rparr>)) =
     Some \<lparr>label = None, dtype = Some Include\<rparr> \<and>
   selectedEdgeType twoNodes = ''association'' \<and>
   edata (newEdge 5 bogusConnection twoNodes) = None \<and>
   map edata (edges (run parseTable flowPosition dependencyRun initialState)) =
     [Some \<lparr>label = None, dtype = Some Include\<rparr>]"
proof -
  have d: "selectedEdgeType (twoNodes\<lparr>selectedEdgeType := ''dependency''\<rparr>) = ''dependency''"
    by simp
  have a: "selectedEdgeType twoNodes = ''association''"
    by code_simp
  have r: "map edata (edges (run parseTable flowPosition dependencyRun initialState)) =
     [Some \<lparr>label = None, dtype = Some Include\<rparr>]"
    by code_simp
  note td = onConnect_edge_kind [of 5 bogusConnection "twoNodes\<lparr>selectedEdgeType := ''dependency''\<rparr>"]
  note ta = onConnect_edge_kind [of 5 bogusConnection twoNodes]
  note 1 = td [THEN conjunct2, THEN conjunct1, THEN mp, OF d, THEN conjunct2]
  note 2 = ta [THEN conjunct2, THEN conjunct2, THEN conjunct1, THEN mp, OF a, THEN conjunct2]
  from d 1 a 2 r show ?thesis by (intro conjI)
qed

subsection \<open>C8: the label a dependency edge displays\<close>

text \<open>
  C8. \<^verbatim>\<open>DependencyEdge\<close> displays the stored label when there is a non-empty one,
  otherwise the dependency type between guillemets when there is one, otherwise nothing
  (an empty stored label counts as absent, as JavaScript's \<^verbatim>\<open>||\<close> has it). The
  displayed text is computed from the edge and stored nowhere:
  \<^verbatim>\<open>handleSave\<close> leaves the diagram as it is when the committed text, trimmed, equals
  the text on display, so whatever it writes differs from the text on display; and the
  edge \<^verbatim>\<open>onConnect\<close> builds under \<open>dependency\<close> has no stored label while it displays
  the include text.
\<close>

theorem dependency_label_display:
  "(label dat = Some l \<and> l \<noteq> '''' \<longrightarrow> dependencyLabel (Some dat) = l) \<and>
   ((label dat = None \<or> label dat = Some '''') \<and> dtype dat = Some k \<longrightarrow>
      dependencyLabel (Some dat) = guillemets (dependencyTypeName k)) \<and>
   ((label dat = None \<or> label dat = Some '''') \<and> dtype dat = None \<longrightarrow>
      dependencyLabel (Some dat) = '''') \<and>
   dependencyLabel None = '''' \<and>
   DependencyEdge e =
     (if dependencyLabel (edata e) = '''' then None else Some (dependencyLabel (edata e))) \<and>
   guillemets (dependencyTypeName Include) = CHR 0xAB # ''include'' @ [CHR 0xBB] \<and>
   guillemets (dependencyTypeName Extend) = CHR 0xAB # ''extend'' @ [CHR 0xBB] \<and>
   (trim t = v \<longrightarrow> handleSave i v t s = s) \<and>
   (handleSave i v t s \<noteq> s \<longrightarrow> trim t \<noteq> v) \<and>
   (selectedEdgeType s = ''dependency'' \<longrightarrow>
      map_option label (edata (newEdge now params s)) = Some None \<and>
      dependencyLabel (edata (newEdge now params s)) = guillemets ''include'')"
  by (auto simp: dependencyLabel_def DependencyEdge_def guillemets_def handleSave_def
      newEdge_def dependencyTypeName_def Let_def)


text \<open>
  A stored label, a synthesized one, none at all; committing the synthesized text of the
  fresh dependency edge unchanged writes nothing, committing \<open>uses\<close> does.
\<close>

theorem dependency_label_display_witness:
  "label \<lparr>label = Some ''uses'', dtype = Some Include\<rparr> = Some ''uses'' \<and> ''uses'' \<noteq> '''' \<and>
   dependencyLabel (Some \<lparr>label = Some ''uses'', dtype = Some Include\<rparr>) = ''uses'' \<and>
   dependencyLabel (Some \<lparr>label = None, dtype = Some Extend\<rparr>) =
     guillemets (dependencyTypeName Extend) \<and>
   dependencyLabel (Some \<lparr>label = Some '''', dtype = None\<rparr>) = '''' \<and>
   map DependencyEdge (edges dependent) = [Some (guillemets ''include'')] \<and>
   trim (guillemets ''include'') = guillemets ''include'' \<and>
   handleSave ''edge_5'' (guillemets ''include'') (guillemets ''include'') dependent = dependent \<and>
   handleSave ''edge_5'' (guillemets ''include'') ''uses'' dependent \<noteq> dependent \<and>
   trim ''uses'' \<noteq> guillemets ''include'' \<and>
   selectedEdgeType (twoNodes\<lparr>selectedEdgeType := ''dependency''\<rparr>) = ''dependency'' \<and>
   map_option label (edata (newEdge 5 bogusConnection
     (twoNodes\<lparr>selectedEdgeType := ''dependency''\<rparr>))) = Some None"
proof -
  have 1: "dependencyLabel (Some \<lparr>label = Some ''uses'', dtype = Some Include\<rparr>) = ''uses''"
    using dependency_label_display [of "\<lparr>label = Some ''uses'', dtype = Some Include\<rparr>" "''uses''"]
    by simp
  have 2: "dependencyLabel (Some \<lparr>label = None, dtype = Some Extend\<rparr>) =
     guillemets (dependencyTypeName Extend)"
    using dependency_label_display [of "\<lparr>label = None, dtype = Some Extend\<rparr>" _ Extend]
    by simp
  have 3: "dependencyLabel (Some \<lparr>label = Some '''', dtype = None\<rparr>) = ''''"
    using dependency_label_display [of "\<lparr>label = Some '''', dtype = None\<rparr>"]
    by simp
  have 4: "map DependencyEdge (edges dependent) = [Some (guillemets ''include'')]"
    by code_simp
  have 5: "trim (guillemets ''include'') = guillemets ''include''"
    by code_simp
  have 6: "handleSave ''edge_5'' (guillemets ''include'') (guillemets ''include'') dependent
      = dependent"
    by (rule dependency_label_display [where t = "guillemets ''include''"
        and v = "guillemets ''include''" and i = "''edge_5''" and s = dependent,
        THEN conjunct2, THEN conjunct2, THEN conjunct2, THEN conjunct2, THEN conjunct2,
        THEN conjunct2, THEN conjunct2, THEN conjunct1, THEN mp, OF 5])
  have 7: "handleSave ''edge_5'' (guillemets ''include'') ''uses'' dependent \<noteq> dependent"
    by code_simp
  have 8: "trim ''uses'' \<noteq> guillemets ''include''"
    by (rule dependency_label_display [where t = "''uses''"
        and v = "guillemets ''include''" and i = "''edge_5''" and s = dependent,
        THEN conjunct2, THEN conjunct2, THEN conjunct2, THEN conjunct2, THEN conjunct2,
        THEN conjunct2, THEN conjunct2, THEN conjunct2, THEN conjunct1, THEN mp, OF 7])
  have 9: "selectedEdgeType (twoNodes\<lparr>selectedEdgeType := ''dependency''\<rparr>) = ''dependency''"
    by simp
  have 10: "map_option label (edata (newEdge 5 bogusConnection
     (twoNodes\<lparr>selectedEdgeType := ''dependency''\<rparr>))) = Some None"
    by (rule dependency_label_display [where s = "twoNodes\<lparr>selectedEdgeType := ''dependency''\<rparr>"
        and now = 5 and params = bogusConnection,
        THEN conjunct2, THEN conjunct2, THEN conjunct2, THEN conjunct2, THEN conjunct2,
        THEN conjunct2, THEN conjunct2, THEN conjunct2, THEN conjunct2, THEN mp, OF 9,
        THEN conjunct1])
  from 1 2 3 4 5 6 7 8 9 10 show ?thesis by simp
qed

subsection \<open>C9: adding a node by a drop\<close>

text \<open>
  C9 (as amended). For every state and every drop whose payload carries a type,
  \<^verbatim>\<open>onDrop\<close> returns the state with exactly one node appended at the end of the node
  sequence: the earlier nodes, the edges and the selected edge type are as before, the
  counter is one higher, and the new node has the id \<^verbatim>\<open>generateNodeId\<close> produces at this
  state (\<open>node_\<close> followed by the counter), the dropped type and the flow position of the
  pointer. That id is distinct from every node id present whenever these stem from
  earlier counter readings, which is so in every state built from the empty diagram.
\<close>

theorem onDrop_appends_node:
  "(getData (dataTransfer event) ''application/reactflow-type'' \<noteq> '''' \<longrightarrow>
     (\<exists>n s'. onDrop P F event s = Inr s' \<and>
        nodes s' = nodes s @ [n] \<and>
        edges s' = edges s \<and>
        selectedEdgeType s' = selectedEdgeType s \<and>
        nodeIdCounter s' = nodeIdCounter s + 1 \<and>
        nid n = fst (generateNodeId s) \<and>
        ntype n = getData (dataTransfer event) ''application/reactflow-type'' \<and>
        position n = F (clientX event, clientY event) \<and>
        (nodeIdsBelow s \<longrightarrow> nid n \<notin> set (map nid (nodes s))))) \<and>
   fst (generateNodeId s) = ''node_'' @ string_of_nat (nodeIdCounter s) \<and>
   nodeIdsBelow (run P' F' as (initialState\<lparr>nodeIdCounter := c\<rparr>))"
proof (intro conjI impI)
  assume h: "getData (dataTransfer event) ''application/reactflow-type'' \<noteq> ''''"
  let ?n = "newNode P F event s"
  let ?s = "s\<lparr>nodes := nodes s @ [?n], nodeIdCounter := nodeIdCounter s + 1\<rparr>"
  from h have "onDrop P F event s = Inr ?s"
    by (simp add: onDrop_with_type)
  moreover have "nodes ?s = nodes s @ [?n]" "edges ?s = edges s"
    "selectedEdgeType ?s = selectedEdgeType s" "nodeIdCounter ?s = nodeIdCounter s + 1"
    by simp_all
  moreover have "nid ?n = fst (generateNodeId s)"
    by (simp add: nid_newNode generateNodeId_def)
  moreover have "ntype ?n = getData (dataTransfer event) ''application/reactflow-type''"
    "position ?n = F (clientX event, clientY event)"
    by (simp_all add: newNode_def Let_def)
  moreover have "nodeIdsBelow s \<longrightarrow> nid ?n \<notin> set (map nid (nodes s))"
    using nodeIdsBelow_fresh [of s] by (simp add: nid_newNode)
  ultimately show "\<exists>n s'. onDrop P F event s = Inr s' \<and>
        nodes s' = nodes s @ [n] \<and>
        edges s' = edges s \<and>
        selectedEdgeType s' = selectedEdgeType s \<and>
        nodeIdCounter s' = nodeIdCounter s + 1 \<and>
        nid n = fst (generateNodeId s) \<and>
        ntype n = getData (dataTransfer event) ''application/reactflow-type'' \<and>
        position n = F (clientX event, clientY event) \<and>
        (nodeIdsBelow s \<longrightarrow> nid n \<notin> set (map nid (nodes s)))"
    by blast
next
  show "fst (generateNodeId s) = ''node_'' @ string_of_nat (nodeIdCounter s)"
    by (simp add: generateNodeId_def nodeIdOf_def)
next
  have "nodesOk (initialState\<lparr>nodeIdCounter := c\<rparr>)"
    by (simp add: nodesOk_def nodeIdsBelow_def initialState_def)
  then have "nodesOk (run P' F' as (initialState\<lparr>nodeIdCounter := c\<rparr>))"
    by (rule nodesOk_run)
  then show "nodeIdsBelow (run P' F' as (initialState\<lparr>nodeIdCounter := c\<rparr>))"
    by (simp add: nodesOk_def)
qed

text \<open>Dropping a system boundary onto the diagram of two nodes gives \<open>node_3\<close>.\<close>

theorem onDrop_appends_node_witness:
  "getData (dataTransfer dropSystem) ''application/reactflow-type'' \<noteq> '''' \<and>
   nodeIdsBelow nodeSelected \<and>
   (\<exists>n s'. onDrop parseTable flowPosition dropSystem nodeSelected = Inr s' \<and>
        nodes s' = nodes nodeSelected @ [n] \<and>
        edges s' = edges nodeSelected \<and>
        nid n = fst (generateNodeId nodeSelected) \<and>
        nid n \<notin> set (map nid (nodes nodeSelected))) \<and>
   fst (generateNodeId nodeSelected) = ''node_3''"
proof -
  have a: "getData (dataTransfer dropSystem) ''application/reactflow-type'' \<noteq> ''''"
    by code_simp
  have b: "nodeIdsBelow nodeSelected"
    by code_simp
  have c: "fst (generateNodeId nodeSelected) = ''node_3''"
    by code_simp
  from onDrop_appends_node [where event = dropSystem and P = parseTable and F = flowPosition
      and s = nodeSelected, THEN conjunct1, THEN mp, OF a]
  obtain n s' where "onDrop parseTable flowPosition dropSystem nodeSelected = Inr s'"
    "nodes s' = nodes nodeSelected @ [n]" "edges s' = edges nodeSelected"
    "nid n = fst (generateNodeId nodeSelected)"
    "nodeIdsBelow nodeSelected \<longrightarrow> nid n \<notin> set (map nid (nodes nodeSelected))"
    by blast
  with b have "\<exists>n s'. onDrop parseTable flowPosition dropSystem nodeSelected = Inr s' \<and>
        nodes s' = nodes nodeSelected @ [n] \<and>
        edges s' = edges nodeSelected \<and>
        nid n = fst (generateNodeId nodeSelected) \<and>
        nid n \<notin> set (map nid (nodes nodeSelected))"
    by blast
  with a b c show ?thesis by (intro conjI)
qed

text \<open>
  The claim as stated fails: on a diagram that came with a node \<open>node_1\<close> while the
  counter stands at 1, the id generated for the dropped system boundary is \<open>node_1\<close>
  again.
\<close>

theorem onDrop_appends_node_counterexample:
  "map nid (nodes preloaded) = [''node_1''] \<and>
   fst (generateNodeId preloaded) = ''node_1'' \<and>
   onDrop parseTable flowPosition dropSystem preloaded =
     Inr (preloaded\<lparr>nodes := nodes preloaded @
                         [\<lparr>nid = ''node_1'', ntype = ''system'',
                           position = \<lparr>pos_x = 15, pos_y = 30\<rparr>,
                           ndata = [(''label'', JStr ''System'')], nselected = False\<rparr>],
                      nodeIdCounter := 2\<rparr>)"
  by code_simp

subsection \<open>C10: drops that carry no type or broken data\<close>

text \<open>
  C10. \<^verbatim>\<open>onDrop\<close> always returns a state and never an exception, whatever
  \<^verbatim>\<open>JSON.parse\<close> does. If the payload's type is empty (or missing) the state is
  returned unchanged. If the type is present and \<^verbatim>\<open>JSON.parse\<close> throws on the data,
  a node is still appended, and its data is just the label made of the type with its
  first character in upper case, as in \<open>Actor\<close> for \<open>actor\<close>.
\<close>

theorem onDrop_never_throws:
  "(\<exists>s'. onDrop P F event s = Inr s') \<and>
   (getData (dataTransfer event) ''application/reactflow-type'' = '''' \<longrightarrow>
      onDrop P F event s = Inr s) \<and>
   (getData (dataTransfer event) ''application/reactflow-type'' \<noteq> '''' \<and>
    P (getData (dataTransfer event) ''application/reactflow-data'') = Inl x \<longrightarrow>
      (\<exists>n. onDrop P F event s =
             Inr (s\<lparr>nodes := nodes s @ [n], nodeIdCounter := nodeIdCounter s + 1\<rparr>) \<and>
           ndata n =
             [(''label'',
               JStr (toUpperCase (charAt0 (getData (dataTransfer event) ''application/reactflow-type''))
                     @ slice1 (getData (dataTransfer event) ''application/reactflow-type'')))])) \<and>
   toUpperCase (charAt0 (c # cs)) @ slice1 (c # cs) = toUpperCase_char c # cs \<and>
   toUpperCase (charAt0 ''actor'') @ slice1 ''actor'' = ''Actor''"
proof (intro conjI impI)
  show "\<exists>s'. onDrop P F event s = Inr s'"
    by (cases "getData (dataTransfer event) ''application/reactflow-type'' = ''''")
      (simp_all add: onDrop_no_type onDrop_with_type)
next
  assume "getData (dataTransfer event) ''application/reactflow-type'' = ''''"
  then show "onDrop P F event s = Inr s"
    by (rule onDrop_no_type)
next
  assume h: "getData (dataTransfer event) ''application/reactflow-type'' \<noteq> '''' \<and>
    P (getData (dataTransfer event) ''application/reactflow-data'') = Inl x"
  let ?n = "newNode P F event s"
  from h have "onDrop P F event s =
      Inr (s\<lparr>nodes := nodes s @ [?n], nodeIdCounter := nodeIdCounter s + 1\<rparr>)"
    by (simp add: onDrop_with_type)
  moreover from h have "ndata ?n =
             [(''label'',
               JStr (toUpperCase (charAt0 (getData (dataTransfer event) ''application/reactflow-type''))
                     @ slice1 (getData (dataTransfer event) ''application/reactflow-type'')))]"
    by (simp add: newNode_def defaultData_def Let_def)
  ultimately show "\<exists>n. onDrop P F event s =
             Inr (s\<lparr>nodes := nodes s @ [n], nodeIdCounter := nodeIdCounter s + 1\<rparr>) \<and>
           ndata n =
             [(''label'',
               JStr (toUpperCase (charAt0 (getData (dataTransfer event) ''application/reactflow-type''))
                     @ slice1 (getData (dataTransfer event) ''application/reactflow-type'')))]"
    by blast
next
  show "toUpperCase (charAt0 (c # cs)) @ slice1 (c # cs) = toUpperCase_char c # cs"
    by (rule capitalize_Cons)
next
  show "toUpperCase (charAt0 ''actor'') @ slice1 ''actor'' = ''Actor''"
    by code_simp
qed

text \<open>A drop without a type, and a drop of an actor with unparsable data.\<close>

theorem onDrop_never_throws_witness:
  "getData (dataTransfer dropNothing) ''application/reactflow-type'' = '''' \<and>
   onDrop parseTable flowPosition dropNothing nodeSelected = Inr nodeSelected \<and>
   getData (dataTransfer dropBroken) ''application/reactflow-type'' \<noteq> '''' \<and>
   parseTable (getData (dataTransfer dropBroken) ''application/reactflow-data'') = Inl SyntaxError \<and>
   (\<exists>n. onDrop parseTable flowPosition dropBroken nodeSelected =
          Inr (nodeSelected\<lparr>nodes := nodes nodeSelected @ [n],
                              nodeIdCounter := nodeIdCounter nodeSelected + 1\<rparr>) \<and>
        ndata n = [(''label'', JStr ''Actor'')])"
proof -
  have a: "getData (dataTransfer dropNothing) ''application/reactflow-type'' = ''''"
    by code_simp
  have b: "getData (dataTransfer dropBroken) ''application/reactflow-type'' \<noteq> '''' \<and>
      parseTable (getData (dataTransfer dropBroken) ''application/reactflow-data'') = Inl SyntaxError"
    by code_simp
  have c: "toUpperCase (charAt0 (getData (dataTransfer dropBroken) ''application/reactflow-type''))
      @ slice1 (getData (dataTransfer dropBroken) ''application/reactflow-type'') = ''Actor''"
    by code_simp
  note t1 = onDrop_never_throws [of parseTable flowPosition dropNothing nodeSelected]
  note t2 = onDrop_never_throws [of parseTable flowPosition dropBroken nodeSelected SyntaxError]
  note 1 = t1 [THEN conjunct2, THEN conjunct1, THEN mp, OF a]
  note 2 = t2 [THEN conjunct2, THEN conjunct2, THEN conjunct1, THEN mp, OF b, unfolded c]
  from a 1 b 2 show ?thesis by (intro conjI) simp_all
qed

end
